theory Spec2Isabelle
  imports Main
begin

section \<open>Strings\<close>

text \<open>
  Go strings are byte sequences; they are modelled as \<open>string\<close> (a list of 8-bit
  characters).  The functions of package \<open>strings\<close> that the monitor calls are written
  out below.  \<open>strings.Split\<close> is only ever called with the one-byte separator
  \<open>"/"\<close>, so the separator is a single character here.  \<open>strings.EqualFold\<close>
  (equality under Unicode simple case folding) is a parameter of the model.
\<close>

definition HasPrefix :: "string \<Rightarrow> string \<Rightarrow> bool" where
  "HasPrefix s p = (take (length p) s = p)"

definition HasSuffix :: "string \<Rightarrow> string \<Rightarrow> bool" where
  "HasSuffix s p = (length p \<le> length s \<and> drop (length s - length p) s = p)"

fun Contains :: "string \<Rightarrow> string \<Rightarrow> bool" where
  "Contains [] sub = (sub = [])"
| "Contains (c # s) sub = (HasPrefix (c # s) sub \<or> Contains s sub)"

fun Split :: "string \<Rightarrow> char \<Rightarrow> string list" where
  "Split [] sep = [[]]"
| "Split (c # s) sep =
     (if c = sep then [] # Split s sep
      else (case Split s sep of [] \<Rightarrow> [[c]] | p # ps \<Rightarrow> (c # p) # ps))"

section \<open>Data model\<close>

text \<open>
  \<open>time.Time\<close> is an integer count of nanoseconds, \<open>Before\<close> is \<open><\<close> and
  \<open>After\<close> is \<open>>\<close>.  \<open>Hour\<close> is \<open>time.Hour\<close> as a \<open>time.Duration\<close>.
\<close>

type_synonym time = int

definition Hour :: int where
  "Hour = 3600000000000"

record Config =
  URL :: string
  CheckInterval :: int
  DataFile :: string
  LemmyServer :: string
  LemmyCommunity :: string
  LemmyUsername :: string
  LemmyPassword :: string
  LemmyToken :: string
  LemmyTokenExp :: time
  IgnoreDirs :: "string list"
  MastodonServer :: string
  MastodonAccessToken :: string
  MastodonUsername :: string
  MastodonPassword :: string
  MastodonClientID :: string
  MastodonClientSecret :: string
  MastodonToken :: string
  MastodonTokenExp :: time
  MastodonVisibility :: string

record LinkData =
  Links :: "string list"
  FailedLinks :: "string list"
  LastSeen :: time

datatype error =
    IOError string
  | ReadLinkFile error
  | ParseLinkFile error
  | SaveLinkFile error

text \<open>
  The content of the data file as \<open>loadLinkData\<close> finds it: absent, unreadable, not
  valid JSON, or the JSON of a \<open>LinkData\<close>.
\<close>

datatype file_res =
    FileMissing
  | FileUnreadable error
  | FileMalformed error
  | FileData LinkData

text \<open>
  Everything a cycle does to the outside world is recorded, in order, as a list of
  events.  \<open>Processing link\<close> marks the start of one iteration of the loop over
  \<open>newLinks\<close> (the source logs the link there).  The title and body of a post are left
  out of the events: no branch of \<open>checkWebsite\<close> depends on them.
\<close>

datatype event =
    FetchURL string
  | ReadDataFile
  | LemmyLogin
  | LemmyGetCommunityID
  | Processing string
  | LemmyCreatePost string int string
  | MastodonLogin
  | MastodonCreatePost string string
  | WriteDataFile
  | WriteConfig

text \<open>
  What the outside world answers.  \<open>link_env\<close> holds the answers to the calls of one
  loop iteration, \<open>cycle_env\<close> those of a whole cycle; \<open>per_link env i\<close> belongs to
  the \<open>i\<close>-th iteration.
\<close>

record link_env =
  page :: "error + string"
  lemmy_post :: "error option"
  mastodon_now :: time
  mastodon_login :: "error + string \<times> time"
  mastodon_post :: "error option"

record cycle_env =
  main_page :: "error + string"
  query_hrefs :: "string \<Rightarrow> error + string list"
  equalFold :: "string \<Rightarrow> string \<Rightarrow> bool"
  load_now :: time
  lemmy_now :: time
  lemmy_login :: "error + string"
  lemmy_login_now :: time
  community_id :: "error + int"
  extractTextBetweenHR :: "string \<Rightarrow> error + string \<times> string"
  per_link :: "nat \<Rightarrow> link_env"
  save_now :: time
  save_links :: "error option"
  save_config :: "error option"

record cycle_state =
  st_data :: LinkData
  st_config :: Config
  st_trace :: "event list"

record cycle_result =
  ret :: "error option"
  written :: "LinkData option"
  written_config :: "Config option"
  trace :: "event list"

section \<open>Link extraction and comparison\<close>

text \<open>
  \<open>extractLinks\<close>: \<open>query\<close> stands for \<open>htmlquery.Parse\<close> followed by
  \<open>htmlquery.QueryAll doc "//a[@href]"\<close> and \<open>SelectAttr node "href"\<close>: it yields the
  \<open>href\<close> values of the anchors in document order, or the error that
  \<open>extractLinks\<close> returns when either call fails.  \<open>ignored\<close> is the inner
  loop over \<open>ignoreDirs\<close>, which leaves at the first match.
\<close>

fun ignored :: "(string \<Rightarrow> string \<Rightarrow> bool) \<Rightarrow> string \<Rightarrow> string list \<Rightarrow> bool" where
  "ignored ef dir [] = False"
| "ignored ef dir (ign # rest) = (if ef dir ign then True else ignored ef dir rest)"

fun extractLinks_loop ::
  "(string \<Rightarrow> string \<Rightarrow> bool) \<Rightarrow> string list \<Rightarrow> string list \<Rightarrow> string list \<Rightarrow> string list" where
  "extractLinks_loop ef ignoreDirs [] links = links"
| "extractLinks_loop ef ignoreDirs (href # nodes) links =
     (if href \<noteq> [] \<and> \<not> HasPrefix href ''#'' \<and> \<not> HasPrefix href ''javascript:'' then
        if Contains href ''/'' \<and> HasSuffix href ''/index.htm'' then
          let parts = Split href (CHR ''/'') in
          if length parts > 1 \<and> ignored ef (hd parts) ignoreDirs
          then extractLinks_loop ef ignoreDirs nodes links
          else extractLinks_loop ef ignoreDirs nodes (links @ [href])
        else extractLinks_loop ef ignoreDirs nodes links
      else extractLinks_loop ef ignoreDirs nodes links)"

definition extractLinks ::
  "(string \<Rightarrow> error + string list) \<Rightarrow> (string \<Rightarrow> string \<Rightarrow> bool) \<Rightarrow> string \<Rightarrow> string list
     \<Rightarrow> error + string list" where
  "extractLinks query ef htmlContent ignoreDirs =
     (case query htmlContent of
        Inl e \<Rightarrow> Inl e
      | Inr nodes \<Rightarrow> Inr (extractLinks_loop ef ignoreDirs nodes []))"

text \<open>
  The property of \<open>extractLinks\<close> in the words of the specification: the test a
  \<open>href\<close> has to pass to be returned.
\<close>

definition link_wanted :: "(string \<Rightarrow> string \<Rightarrow> bool) \<Rightarrow> string list \<Rightarrow> string \<Rightarrow> bool" where
  "link_wanted ef ignoreDirs href =
     (href \<noteq> [] \<and> \<not> HasPrefix href ''#'' \<and> \<not> HasPrefix href ''javascript:''
      \<and> CHR ''/'' \<in> set href \<and> HasSuffix href ''/index.htm''
      \<and> \<not> list_ex (ef (takeWhile (\<lambda>c. c \<noteq> CHR ''/'') href)) ignoreDirs)"

text \<open>
  A Go \<open>map[string]bool\<close> that is only ever written with \<open>true\<close> is a function to
  \<open>bool\<close> that answers \<open>False\<close> for a missing key.
\<close>

definition link_map :: "string list \<Rightarrow> string \<Rightarrow> bool" where
  "link_map links = fold (\<lambda>link m. m(link := True)) links (\<lambda>_. False)"

definition findNewLinks :: "string list \<Rightarrow> string list \<Rightarrow> string list \<Rightarrow> string list" where
  "findNewLinks currentLinks savedLinks failedLinks =
     (let savedMap = link_map savedLinks;
          newLinks = fold (\<lambda>link acc. if \<not> savedMap link then acc @ [link] else acc) currentLinks [];
          newLinks = fold (\<lambda>link acc. acc @ [link]) failedLinks newLinks
      in newLinks)"

definition findRemovedLinks :: "string list \<Rightarrow> string list \<Rightarrow> string list" where
  "findRemovedLinks currentLinks savedLinks =
     (let currentMap = link_map currentLinks
      in fold (\<lambda>link acc. if \<not> currentMap link then acc @ [link] else acc) savedLinks [])"

text \<open>
  \<open>loadLinkData\<close>: a missing file is an empty state.  The source replaces a \<open>nil\<close>
  \<open>FailedLinks\<close> by the empty slice, which is the same list here.
\<close>

definition loadLinkData :: "time \<Rightarrow> file_res \<Rightarrow> error + LinkData" where
  "loadLinkData now file =
     (case file of
        FileMissing \<Rightarrow> Inr \<lparr>Links = [], FailedLinks = [], LastSeen = now\<rparr>
      | FileUnreadable e \<Rightarrow> Inl (ReadLinkFile e)
      | FileMalformed e \<Rightarrow> Inl (ParseLinkFile e)
      | FileData d \<Rightarrow> Inr d)"

section \<open>One cycle: \<open>checkWebsite\<close>\<close>

definition pageURL_of :: "Config \<Rightarrow> string \<Rightarrow> string" where
  "pageURL_of cfg link =
     (if \<not> HasSuffix (URL cfg) ''/'' then URL cfg @ ''/'' else URL cfg) @ link"

definition lemmyConfigured :: "Config \<Rightarrow> bool" where
  "lemmyConfigured cfg =
     (LemmyServer cfg \<noteq> [] \<and> LemmyCommunity cfg \<noteq> [] \<and> LemmyUsername cfg \<noteq> []
      \<and> LemmyPassword cfg \<noteq> [])"

definition mastodonConfigured :: "Config \<Rightarrow> bool" where
  "mastodonConfigured cfg = (MastodonServer cfg \<noteq> [] \<and> MastodonAccessToken cfg \<noteq> [])"

text \<open>
  The Lemmy login at the start of a cycle that has links to publish: the JWT to use,
  the configuration with the cached token, and the calls made.
\<close>

definition lemmy_token_phase :: "cycle_env \<Rightarrow> Config \<Rightarrow> string \<times> Config \<times> event list" where
  "lemmy_token_phase env cfg =
     (if LemmyToken cfg \<noteq> [] \<and> lemmy_now env < LemmyTokenExp cfg then (LemmyToken cfg, cfg, [])
      else (case lemmy_login env of
              Inl e \<Rightarrow> ([], cfg, [LemmyLogin])
            | Inr jwt \<Rightarrow>
                (jwt, cfg\<lparr>LemmyToken := jwt, LemmyTokenExp := lemmy_login_now env + Hour\<rparr>,
                 [LemmyLogin])))"

definition community_phase :: "cycle_env \<Rightarrow> string \<Rightarrow> int \<times> event list" where
  "community_phase env jwt =
     (if jwt \<noteq> [] then
        (case community_id env of
           Inl e \<Rightarrow> (0, [LemmyGetCommunityID])
         | Inr n \<Rightarrow> (n, [LemmyGetCommunityID]))
      else (0, []))"

text \<open>The Lemmy part of one iteration: \<open>lemmySuccess\<close> and the calls made.\<close>

definition lemmy_post_step ::
  "bool \<Rightarrow> string \<Rightarrow> int \<Rightarrow> link_env \<Rightarrow> string \<Rightarrow> Config \<Rightarrow> bool \<times> event list" where
  "lemmy_post_step testMode jwt communityID le pageURL cfg =
     (if lemmyConfigured cfg then
        if \<not> testMode then
          if jwt \<noteq> [] then
            (case lemmy_post le of
               Some e \<Rightarrow> (False, [LemmyCreatePost jwt communityID pageURL])
             | None \<Rightarrow> (True, [LemmyCreatePost jwt communityID pageURL]))
          else (False, [])
        else (True, [])
      else (True, []))"

text \<open>
  The Mastodon part of one iteration, in two steps: the token handling (the success
  flag so far, the token to use, the configuration, the calls made), then the post.
\<close>

definition mastodon_token_step :: "link_env \<Rightarrow> Config \<Rightarrow> bool \<times> string \<times> Config \<times> event list" where
  "mastodon_token_step le cfg =
     (let mastodonToken = MastodonAccessToken cfg in
      if mastodonToken = [] \<or> (MastodonToken cfg \<noteq> [] \<and> mastodon_now le > MastodonTokenExp cfg) then
        if MastodonUsername cfg \<noteq> [] \<and> MastodonPassword cfg \<noteq> [] \<and> MastodonClientID cfg \<noteq> []
           \<and> MastodonClientSecret cfg \<noteq> [] then
          (case mastodon_login le of
             Inl e \<Rightarrow> (False, mastodonToken, cfg, [MastodonLogin])
           | Inr (token, exp) \<Rightarrow>
               (True, token, cfg\<lparr>MastodonToken := token, MastodonTokenExp := exp\<rparr>, [MastodonLogin]))
        else (True, mastodonToken, cfg, [])
      else (True, mastodonToken, cfg, []))"

definition mastodon_post_step ::
  "bool \<Rightarrow> link_env \<Rightarrow> string \<Rightarrow> Config \<Rightarrow> bool \<times> Config \<times> event list" where
  "mastodon_post_step testMode le link cfg =
     (if mastodonConfigured cfg then
        (case mastodon_token_step le cfg of
           (ok, mastodonToken, cfg', evs) \<Rightarrow>
             if mastodonToken = [] then (False, cfg', evs)
             else if \<not> testMode then
               (case mastodon_post le of
                  Some e \<Rightarrow> (False, cfg', evs @ [MastodonCreatePost mastodonToken link])
                | None \<Rightarrow> (ok, cfg', evs @ [MastodonCreatePost mastodonToken link]))
             else (ok, cfg', evs))
      else (True, cfg, []))"

text \<open>
  The body of the loop over \<open>newLinks\<close>.  \<open>continue\<close> is the state reached so
  far.  The city name (\<open>extractCityName\<close>) and the extracted title only enter the
  title and body of the posts and the log, so they do not appear.
\<close>

definition mark_failed :: "string \<Rightarrow> cycle_state \<Rightarrow> cycle_state" where
  "mark_failed link st =
     st\<lparr>st_data := (st_data st)\<lparr>FailedLinks := FailedLinks (st_data st) @ [link]\<rparr>\<rparr>"

definition mark_published :: "string \<Rightarrow> cycle_state \<Rightarrow> cycle_state" where
  "mark_published link st =
     st\<lparr>st_data := (st_data st)\<lparr>Links := Links (st_data st) @ [link]\<rparr>\<rparr>"

definition process_link ::
  "bool \<Rightarrow> string \<Rightarrow> int \<Rightarrow> cycle_env \<Rightarrow> link_env \<Rightarrow> string \<Rightarrow> cycle_state \<Rightarrow> cycle_state" where
  "process_link testMode jwt communityID env le link st =
     (let cfg = st_config st;
          pageURL = pageURL_of cfg link;
          st1 = st\<lparr>st_trace := st_trace st @ [Processing link, FetchURL pageURL]\<rparr>
      in case page le of
           Inl e \<Rightarrow> st1
         | Inr pageContent \<Rightarrow>
            (case extractTextBetweenHR env pageContent of
               Inl e \<Rightarrow> st1
             | Inr (extractedTitle, text) \<Rightarrow>
                 if text \<noteq> [] then
                   if \<not> lemmyConfigured cfg \<and> \<not> mastodonConfigured cfg then mark_failed link st1
                   else
                     (case lemmy_post_step testMode jwt communityID le pageURL cfg of
                        (lemmySuccess, evL) \<Rightarrow>
                          (case mastodon_post_step testMode le link cfg of
                             (mastodonSuccess, cfg', evM) \<Rightarrow>
                               let st2 = st1\<lparr>st_config := cfg', st_trace := st_trace st1 @ evL @ evM\<rparr>
                               in if (lemmyConfigured cfg \<and> \<not> lemmySuccess)
                                     \<or> (mastodonConfigured cfg \<and> \<not> mastodonSuccess)
                                  then mark_failed link st2
                                  else mark_published link st2))
                 else st1))"

fun process_links ::
  "bool \<Rightarrow> string \<Rightarrow> int \<Rightarrow> cycle_env \<Rightarrow> nat \<Rightarrow> string list \<Rightarrow> cycle_state \<Rightarrow> cycle_state" where
  "process_links testMode jwt communityID env i [] st = st"
| "process_links testMode jwt communityID env i (link # rest) st =
     process_links testMode jwt communityID env (Suc i) rest
       (process_link testMode jwt communityID env (per_link env i) link st)"

text \<open>
  \<open>checkWebsite\<close> from the comparison of the link lists to the time stamp, that is,
  between loading and saving the data file.
\<close>

definition publish_phase ::
  "Config \<Rightarrow> bool \<Rightarrow> cycle_env \<Rightarrow> string list \<Rightarrow> LinkData \<Rightarrow> cycle_state" where
  "publish_phase cfg testMode env newLinks savedData =
     (if length newLinks > 0 then
        (case lemmy_token_phase env cfg of
           (jwt, cfg1, ev1) \<Rightarrow>
             (case community_phase env jwt of
                (communityID, ev2) \<Rightarrow>
                  process_links testMode jwt communityID env 0 newLinks
                    \<lparr>st_data = savedData\<lparr>FailedLinks := []\<rparr>, st_config = cfg1,
                     st_trace = ev1 @ ev2\<rparr>))
      else \<lparr>st_data = savedData, st_config = cfg, st_trace = []\<rparr>)"

definition drop_removed :: "string list \<Rightarrow> string list \<Rightarrow> cycle_state \<Rightarrow> cycle_state" where
  "drop_removed currentLinks removedLinks st =
     (if length removedLinks > 0 then
        let currentMap = link_map currentLinks;
            updatedLinks =
              fold (\<lambda>link acc. if currentMap link then acc @ [link] else acc) (Links (st_data st)) []
        in st\<lparr>st_data := (st_data st)\<lparr>Links := updatedLinks\<rparr>\<rparr>
      else st)"

definition reconcile ::
  "Config \<Rightarrow> bool \<Rightarrow> cycle_env \<Rightarrow> string list \<Rightarrow> LinkData \<Rightarrow> cycle_state" where
  "reconcile cfg testMode env currentLinks savedData =
     (let newLinks = findNewLinks currentLinks (Links savedData) (FailedLinks savedData);
          removedLinks = findRemovedLinks currentLinks (Links savedData);
          st1 = publish_phase cfg testMode env newLinks savedData;
          st2 = drop_removed currentLinks removedLinks st1
      in st2\<lparr>st_data := (st_data st2)\<lparr>LastSeen := save_now env\<rparr>\<rparr>)"

text \<open>
  The whole cycle.  \<open>file\<close> is the data file as the cycle finds it.  The result holds
  the value returned, the \<open>LinkData\<close> and the configuration written (if any), and the
  events of the cycle.
\<close>

definition checkWebsite :: "Config \<Rightarrow> bool \<Rightarrow> cycle_env \<Rightarrow> file_res \<Rightarrow> cycle_result" where
  "checkWebsite cfg testMode env file =
     (case main_page env of
        Inl e \<Rightarrow>
          \<lparr>ret = Some e, written = None, written_config = None, trace = [FetchURL (URL cfg)]\<rparr>
      | Inr htmlContent \<Rightarrow>
         (case extractLinks (query_hrefs env) (equalFold env) htmlContent (IgnoreDirs cfg) of
            Inl e \<Rightarrow>
              \<lparr>ret = Some e, written = None, written_config = None, trace = [FetchURL (URL cfg)]\<rparr>
          | Inr currentLinks \<Rightarrow>
             (case loadLinkData (load_now env) file of
                Inl e \<Rightarrow>
                  \<lparr>ret = Some e, written = None, written_config = None,
                   trace = [FetchURL (URL cfg), ReadDataFile]\<rparr>
              | Inr savedData \<Rightarrow>
                  let st = reconcile cfg testMode env currentLinks savedData;
                      tr = [FetchURL (URL cfg), ReadDataFile] @ st_trace st @ [WriteDataFile]
                  in (case save_links env of
                        Some e \<Rightarrow>
                          \<lparr>ret = Some (SaveLinkFile e), written = None, written_config = None,
                           trace = tr\<rparr>
                      | None \<Rightarrow>
                          \<lparr>ret = None, written = Some (st_data st),
                           written_config =
                             (case save_config env of Some e \<Rightarrow> None | None \<Rightarrow> Some (st_config st)),
                           trace = tr @ [WriteConfig]\<rparr>))))"

text \<open>
  \<open>runMonitoring\<close>: a first cycle at once, then one cycle per tick until the context
  is cancelled; \<open>ticks\<close> holds the environments of the cycles that the ticker starts.
  Every cycle gets the same configuration, since \<open>checkWebsite\<close> takes it by value.
  A cycle that writes the data file leaves it to the next one; a cycle that returns before
  writing, or whose write fails, is taken to leave the file as it found it.
\<close>

definition file_after :: "file_res \<Rightarrow> cycle_result \<Rightarrow> file_res" where
  "file_after file r = (case written r of Some d \<Rightarrow> FileData d | None \<Rightarrow> file)"

fun run_ticks :: "Config \<Rightarrow> bool \<Rightarrow> cycle_env list \<Rightarrow> file_res \<Rightarrow> file_res \<times> event list" where
  "run_ticks cfg testMode [] file = (file, [])"
| "run_ticks cfg testMode (env # ticks) file =
     (let r = checkWebsite cfg testMode env file in
      case run_ticks cfg testMode ticks (file_after file r) of
        (file', evs) \<Rightarrow> (file', trace r @ evs))"

definition runMonitoring ::
  "Config \<Rightarrow> bool \<Rightarrow> cycle_env \<Rightarrow> cycle_env list \<Rightarrow> file_res \<Rightarrow> file_res \<times> event list" where
  "runMonitoring cfg testMode first ticks file = run_ticks cfg testMode (first # ticks) file"

section \<open>Observations on a cycle\<close>

text \<open>
  \<open>attempted evs\<close> lists, in order, the links that the loop over \<open>newLinks\<close> took
  up; \<open>new_events\<close> are the events that one loop iteration adds to the trace.
\<close>

fun attempted :: "event list \<Rightarrow> string list" where
  "attempted [] = []"
| "attempted (Processing link # evs) = link # attempted evs"
| "attempted (ev # evs) = attempted evs"


section \<open>Outcomes in terms of the outside world\<close>

text \<open>
  \<open>has_excerpt\<close>: the detail page of the link could be fetched and a non-empty text
  was extracted from it.
\<close>

definition has_excerpt :: "cycle_env \<Rightarrow> link_env \<Rightarrow> bool" where
  "has_excerpt env le =
     (case page le of
        Inl e \<Rightarrow> False
      | Inr content \<Rightarrow>
         (case extractTextBetweenHR env content of
            Inl e \<Rightarrow> False
          | Inr (title, text) \<Rightarrow> text \<noteq> []))"

text \<open>
  What it means for a publish to succeed on a platform.  On Lemmy: the cycle holds a
  token and the post call returns no error.  On Mastodon: a token refresh, if one is
  due in this iteration, yields a non-empty token, and the post call returns no error.
\<close>

definition lemmy_publish_ok :: "string \<Rightarrow> link_env \<Rightarrow> bool" where
  "lemmy_publish_ok jwt le = (jwt \<noteq> [] \<and> lemmy_post le = None)"

definition mastodon_refresh_due :: "link_env \<Rightarrow> Config \<Rightarrow> bool" where
  "mastodon_refresh_due le cfg =
     ((MastodonAccessToken cfg = []
        \<or> (MastodonToken cfg \<noteq> [] \<and> mastodon_now le > MastodonTokenExp cfg))
      \<and> MastodonUsername cfg \<noteq> [] \<and> MastodonPassword cfg \<noteq> []
      \<and> MastodonClientID cfg \<noteq> [] \<and> MastodonClientSecret cfg \<noteq> [])"

definition mastodon_credential_ok :: "link_env \<Rightarrow> Config \<Rightarrow> bool" where
  "mastodon_credential_ok le cfg =
     (if mastodon_refresh_due le cfg
      then (case mastodon_login le of Inl e \<Rightarrow> False | Inr (token, exp) \<Rightarrow> token \<noteq> [])
      else MastodonAccessToken cfg \<noteq> [])"

definition mastodon_publish_ok :: "link_env \<Rightarrow> Config \<Rightarrow> bool" where
  "mastodon_publish_ok le cfg = (mastodon_credential_ok le cfg \<and> mastodon_post le = None)"

text \<open>The condition under which the loop body puts the link into \<open>FailedLinks\<close>.\<close>

definition link_fails :: "bool \<Rightarrow> string \<Rightarrow> int \<Rightarrow> link_env \<Rightarrow> string \<Rightarrow> Config \<Rightarrow> bool" where
  "link_fails testMode jwt communityID le link cfg =
     ((lemmyConfigured cfg
         \<and> \<not> fst (lemmy_post_step testMode jwt communityID le (pageURL_of cfg link) cfg))
      \<or> (mastodonConfigured cfg \<and> \<not> fst (mastodon_post_step testMode le link cfg)))"

text \<open>
  The calls that publish a post, and the links that a data file holds as published.
\<close>

fun is_publish_call :: "event \<Rightarrow> bool" where
  "is_publish_call (LemmyCreatePost jwt communityID url) = True"
| "is_publish_call (MastodonCreatePost token link) = True"
| "is_publish_call ev = False"

definition published_of :: "file_res \<Rightarrow> string list" where
  "published_of file = (case file of FileData d \<Rightarrow> Links d | _ \<Rightarrow> [])"


section \<open>Sample inputs\<close>

text \<open>
  \<open>DefaultConfig\<close> is the configuration of the source: Lemmy is configured, Mastodon is
  not.  \<open>zero_time\<close> is \<open>time.Time{}\<close>, the first instant of year 1.
\<close>

definition zero_time :: time where
  "zero_time = - 62135596800000000000"

definition DefaultConfig :: Config where
  "DefaultConfig =
     \<lparr>URL = ''http://www.grundstueckverkehrsgesetz.nrw.de'',
      CheckInterval = 12 * Hour,
      DataFile = ''links.json'',
      LemmyServer = ''https://natur.23.nu'',
      LemmyCommunity = ''kulturlandschaft'',
      LemmyUsername = ''gvgbot'',
      LemmyPassword = ''CHANGEME'',
      LemmyToken = [],
      LemmyTokenExp = zero_time,
      IgnoreDirs = [''guetersloh''],
      MastodonServer = [],
      MastodonAccessToken = [],
      MastodonUsername = [],
      MastodonPassword = [],
      MastodonClientID = [],
      MastodonClientSecret = [],
      MastodonToken = [],
      MastodonTokenExp = zero_time,
      MastodonVisibility = ''unlisted''\<rparr>"

text \<open>
  An outside world in which every call succeeds: the monitored page shows the anchors
  \<open>hrefs\<close>, every detail page has an excerpt, every login and post is accepted.
\<close>

definition calm_link :: link_env where
  "calm_link =
     \<lparr>page = Inr ''<hr>Verkauf<hr>'', lemmy_post = None, mastodon_now = 100,
      mastodon_login = Inr (''fresh'', 5000), mastodon_post = None\<rparr>"

definition calm_env :: "string list \<Rightarrow> cycle_env" where
  "calm_env hrefs =
     \<lparr>main_page = Inr ''<html>'',
      query_hrefs = (\<lambda>html. Inr hrefs),
      equalFold = (\<lambda>a b. a = b),
      load_now = 100,
      lemmy_now = 100,
      lemmy_login = Inr ''jwt'',
      lemmy_login_now = 100,
      community_id = Inr 7,
      extractTextBetweenHR = (\<lambda>content. Inr (''Titel'', ''Verkauf'')),
      per_link = (\<lambda>i. calm_link),
      save_now = 100,
      save_links = None,
      save_config = None\<rparr>"

text \<open>A stored state with one published link and one pending link.\<close>

definition two_state :: LinkData where
  "two_state = \<lparr>Links = [''a/index.htm''], FailedLinks = [''z/index.htm''], LastSeen = 0\<rparr>"

text \<open>
  Variations: stored states, iterations in which a post is rejected, a cycle whose first
  Lemmy post is rejected, a cycle whose detail pages have no excerpt.
\<close>

definition pending_state :: LinkData where
  "pending_state = \<lparr>Links = [], FailedLinks = [''a/index.htm''], LastSeen = 0\<rparr>"

definition settled_state :: LinkData where
  "settled_state = \<lparr>Links = [''a/index.htm''], FailedLinks = [], LastSeen = 0\<rparr>"

definition rejected_link :: link_env where
  "rejected_link = calm_link\<lparr>lemmy_post := Some (IOError ''HTTP 500'')\<rparr>"

definition toot_rejected_link :: link_env where
  "toot_rejected_link = calm_link\<lparr>mastodon_post := Some (IOError ''HTTP 422'')\<rparr>"

definition flaky_env :: cycle_env where
  "flaky_env =
     (calm_env [''a/index.htm''])\<lparr>per_link := (\<lambda>i. if i = 0 then rejected_link else calm_link)\<rparr>"

definition blank_env :: cycle_env where
  "blank_env =
     (calm_env [''a/index.htm''])\<lparr>extractTextBetweenHR := (\<lambda>content. Inr (''Titel'', []))\<rparr>"

text \<open>
  Configurations: no platform configured; Lemmy with a persisted token but no user name
  and password; both platforms configured; Mastodon only.
\<close>

definition bare_config :: Config where
  "bare_config = DefaultConfig\<lparr>LemmyPassword := []\<rparr>"

definition token_only_config :: Config where
  "token_only_config =
     DefaultConfig\<lparr>LemmyUsername := [], LemmyPassword := [], LemmyToken := ''tok'',
       LemmyTokenExp := 5000\<rparr>"

definition both_config :: Config where
  "both_config =
     DefaultConfig\<lparr>MastodonServer := ''https://gts.example.org'', MastodonAccessToken := ''secret''\<rparr>"

definition mastodon_only_config :: Config where
  "mastodon_only_config = both_config\<lparr>LemmyPassword := []\<rparr>"

text \<open>
  Mastodon with a cached token that has expired and full client credentials, and a
  cycle over three new links in which every Mastodon login is refused.
\<close>

definition expired_config :: Config where
  "expired_config =
     both_config\<lparr>MastodonUsername := ''gvgbot'', MastodonPassword := ''CHANGEME'',
       MastodonClientID := ''id'', MastodonClientSecret := ''key'', MastodonToken := ''old'',
       MastodonTokenExp := 50\<rparr>"

definition refused_link :: link_env where
  "refused_link = calm_link\<lparr>mastodon_login := Inl (IOError ''HTTP 401'')\<rparr>"

definition refused_env :: cycle_env where
  "refused_env =
     (calm_env [''a/index.htm'', ''b/index.htm'', ''c/index.htm''])\<lparr>per_link := (\<lambda>i. refused_link)\<rparr>"

section \<open>Properties\<close>

subsection \<open>Lists and maps\<close>

lemma link_map_fold:
  "fold (\<lambda>link m. m(link := True)) xs m0 l \<longleftrightarrow> l \<in> set xs \<or> m0 l"
  by (induction xs arbitrary: m0) auto

lemma link_map_iff: "link_map xs l \<longleftrightarrow> l \<in> set xs"
  by (simp add: link_map_def link_map_fold)

lemma fold_keep: "fold (\<lambda>x acc. if P x then acc @ [x] else acc) xs acc0 = acc0 @ filter P xs"
  by (induction xs arbitrary: acc0) auto

lemma fold_snoc: "fold (\<lambda>x acc. acc @ [x]) xs acc0 = acc0 @ xs"
  by (induction xs arbitrary: acc0) auto

lemma findNewLinks_eq:
  "findNewLinks cur saved failed = filter (\<lambda>l. l \<notin> set saved) cur @ failed"
  by (simp add: findNewLinks_def Let_def fold_keep fold_snoc link_map_iff)

lemma findRemovedLinks_eq:
  "findRemovedLinks cur saved = filter (\<lambda>l. l \<notin> set cur) saved"
  by (simp add: findRemovedLinks_def Let_def fold_keep link_map_iff)

lemma Split_nonempty: "Split s c \<noteq> []"
  by (induction s) (auto split: list.splits)

lemma hd_Split: "hd (Split s c) = takeWhile (\<lambda>x. x \<noteq> c) s"
  by (induction s) (auto split: list.splits simp: Split_nonempty)

lemma length_Split: "Suc 0 < length (Split s c) \<longleftrightarrow> c \<in> set s"
  by (induction s) (auto split: list.splits simp: Split_nonempty)

lemma Contains_char: "Contains s [c] \<longleftrightarrow> c \<in> set s"
  by (induction s) (auto simp: HasPrefix_def)

lemma ignored_list_ex: "ignored ef d ign = list_ex (ef d) ign"
  by (induction ign) auto

lemma extractLinks_loop_eq:
  "extractLinks_loop ef ign nodes acc = acc @ filter (link_wanted ef ign) nodes"
  by (induction nodes arbitrary: acc)
     (auto simp: link_wanted_def Let_def Contains_char hd_Split length_Split ignored_list_ex)

subsection \<open>The trace of a cycle\<close>

lemma attempted_append: "attempted (xs @ ys) = attempted xs @ attempted ys"
  by (induction xs rule: attempted.induct) auto

lemma attempted_none: "(\<And>l. Processing l \<notin> set evs) \<Longrightarrow> attempted evs = []"
  by (induction evs rule: attempted.induct) auto

lemma lemmy_post_step_events:
  "set (snd (lemmy_post_step tm jwt cid le url cfg)) \<subseteq> {LemmyCreatePost jwt cid url}"
  by (simp add: lemmy_post_step_def split: option.split)

lemma mastodon_token_step_events:
  "set (snd (snd (snd (mastodon_token_step le cfg)))) \<subseteq> {MastodonLogin}"
  by (simp add: mastodon_token_step_def Let_def split: sum.split prod.split)

lemma mastodon_post_step_events:
  "set (snd (snd (mastodon_post_step tm le link cfg)))
     \<subseteq> insert MastodonLogin (range (\<lambda>t. MastodonCreatePost t link))"
proof -
  obtain ok tok cfg' evs where T: "mastodon_token_step le cfg = (ok, tok, cfg', evs)"
    by (cases "mastodon_token_step le cfg") auto
  from mastodon_token_step_events [of le cfg] T have "set evs \<subseteq> {MastodonLogin}" by simp
  then show ?thesis
    by (auto simp: mastodon_post_step_def T split: option.split)
qed

lemma process_link_trace:
  "\<exists>evs. st_trace (process_link tm jwt cid env le link st)
           = st_trace st @ Processing link # FetchURL (pageURL_of (st_config st) link) # evs
         \<and> set evs \<subseteq> insert (LemmyCreatePost jwt cid (pageURL_of (st_config st) link))
                       (insert MastodonLogin (range (\<lambda>t. MastodonCreatePost t link)))"
proof -
  obtain ls evL where L: "lemmy_post_step tm jwt cid le (pageURL_of (st_config st) link) (st_config st) = (ls, evL)"
    by (cases "lemmy_post_step tm jwt cid le (pageURL_of (st_config st) link) (st_config st)") auto
  obtain ms cfg' evM where M: "mastodon_post_step tm le link (st_config st) = (ms, cfg', evM)"
    by (cases "mastodon_post_step tm le link (st_config st)") auto
  from lemmy_post_step_events [of tm jwt cid le "pageURL_of (st_config st) link" "st_config st"] L
  have EL: "set evL \<subseteq> {LemmyCreatePost jwt cid (pageURL_of (st_config st) link)}" by simp
  from mastodon_post_step_events [of tm le link "st_config st"] M
  have EM: "set evM \<subseteq> insert MastodonLogin (range (\<lambda>t. MastodonCreatePost t link))" by simp
  from EL EM have E: "set (evL @ evM) \<subseteq> insert (LemmyCreatePost jwt cid (pageURL_of (st_config st) link))
                       (insert MastodonLogin (range (\<lambda>t. MastodonCreatePost t link)))"
    by auto
  show ?thesis
    using E by (simp add: process_link_def Let_def L M mark_failed_def mark_published_def
        split: sum.split prod.split)
qed

lemma process_link_attempted:
  "attempted (st_trace (process_link tm jwt cid env le link st)) = attempted (st_trace st) @ [link]"
proof -
  from process_link_trace [of tm jwt cid env le link st] obtain evs where
    T: "st_trace (process_link tm jwt cid env le link st)
          = st_trace st @ Processing link # FetchURL (pageURL_of (st_config st) link) # evs"
    and E: "set evs \<subseteq> insert (LemmyCreatePost jwt cid (pageURL_of (st_config st) link))
                       (insert MastodonLogin (range (\<lambda>t. MastodonCreatePost t link)))"
    by blast
  from E have "attempted evs = []" by (intro attempted_none) auto
  with T show ?thesis by (simp add: attempted_append)
qed

lemma process_links_attempted:
  "attempted (st_trace (process_links tm jwt cid env i ls st)) = attempted (st_trace st) @ ls"
  by (induction ls arbitrary: i st) (simp_all add: process_link_attempted)

lemma lemmy_token_phase_attempted: "attempted (snd (snd (lemmy_token_phase env cfg))) = []"
  by (simp add: lemmy_token_phase_def split: sum.split)

lemma community_phase_attempted: "attempted (snd (community_phase env jwt)) = []"
  by (simp add: community_phase_def split: sum.split)

lemma publish_phase_attempted:
  "attempted (st_trace (publish_phase cfg tm env newLinks d)) = newLinks"
proof -
  obtain jwt cfg1 ev1 where A: "lemmy_token_phase env cfg = (jwt, cfg1, ev1)"
    by (cases "lemmy_token_phase env cfg") auto
  obtain cid ev2 where B: "community_phase env jwt = (cid, ev2)"
    by (cases "community_phase env jwt") auto
  from lemmy_token_phase_attempted [of env cfg] A have "attempted ev1 = []" by simp
  moreover from community_phase_attempted [of env jwt] B have "attempted ev2 = []" by simp
  ultimately show ?thesis
    by (simp add: publish_phase_def A B process_links_attempted attempted_append)
qed

lemma drop_removed_trace: "st_trace (drop_removed cur rem st) = st_trace st"
  by (simp add: drop_removed_def Let_def)

lemma reconcile_attempted:
  "attempted (st_trace (reconcile cfg tm env cur d)) = findNewLinks cur (Links d) (FailedLinks d)"
  by (simp add: reconcile_def Let_def drop_removed_trace publish_phase_attempted)

lemma checkWebsite_attempted:
  assumes "main_page env = Inr html"
    and "extractLinks (query_hrefs env) (equalFold env) html (IgnoreDirs cfg) = Inr observed"
    and "loadLinkData (load_now env) file = Inr d"
  shows "attempted (trace (checkWebsite cfg tm env file)) = findNewLinks observed (Links d) (FailedLinks d)"
  using assms
  by (simp add: checkWebsite_def Let_def attempted_append reconcile_attempted split: option.split)

subsection \<open>One loop iteration\<close>

lemma lemmy_post_step_fst:
  "fst (lemmy_post_step tm jwt cid le url cfg)
     \<longleftrightarrow> \<not> lemmyConfigured cfg \<or> tm \<or> lemmy_publish_ok jwt le"
  by (simp add: lemmy_post_step_def lemmy_publish_ok_def split: option.split)

lemma lemmy_post_step_snd:
  "snd (lemmy_post_step tm jwt cid le url cfg)
     = (if lemmyConfigured cfg \<and> \<not> tm \<and> jwt \<noteq> [] then [LemmyCreatePost jwt cid url] else [])"
  by (simp add: lemmy_post_step_def split: option.split)

lemma mastodon_token_step_eq:
  "mastodon_token_step le cfg =
     (if mastodon_refresh_due le cfg then
        (case mastodon_login le of
           Inl e \<Rightarrow> (False, MastodonAccessToken cfg, cfg, [MastodonLogin])
         | Inr (token, exp) \<Rightarrow>
             (True, token, cfg\<lparr>MastodonToken := token, MastodonTokenExp := exp\<rparr>, [MastodonLogin]))
      else (True, MastodonAccessToken cfg, cfg, []))"
  by (simp add: mastodon_token_step_def mastodon_refresh_due_def Let_def)

lemma mastodon_post_step_fst:
  "fst (mastodon_post_step tm le link cfg)
     \<longleftrightarrow> \<not> mastodonConfigured cfg
         \<or> (mastodon_credential_ok le cfg \<and> (tm \<or> mastodon_post le = None))"
  by (auto simp: mastodon_post_step_def mastodon_token_step_eq mastodon_credential_ok_def
       split: sum.split option.split prod.split)

lemma mastodon_post_step_config:
  "fst (snd (mastodon_post_step tm le link cfg))
     = (if mastodonConfigured cfg \<and> mastodon_refresh_due le cfg then
          (case mastodon_login le of
             Inl e \<Rightarrow> cfg
           | Inr (token, exp) \<Rightarrow> cfg\<lparr>MastodonToken := token, MastodonTokenExp := exp\<rparr>)
        else cfg)"
  by (simp add: mastodon_post_step_def mastodon_token_step_eq
       split: sum.split option.split prod.split)

lemma mastodon_post_step_quiet:
  "\<not> mastodonConfigured cfg \<Longrightarrow> snd (snd (mastodon_post_step tm le link cfg)) = []"
  by (simp add: mastodon_post_step_def)

lemma mastodon_post_step_no_login:
  "\<not> mastodon_refresh_due le cfg \<Longrightarrow> MastodonLogin \<notin> set (snd (snd (mastodon_post_step tm le link cfg)))"
  by (simp add: mastodon_post_step_def mastodon_token_step_eq split: option.split)


lemma process_link_unfold:
  "process_link tm jwt cid env le link st =
     (let cfg = st_config st;
          url = pageURL_of cfg link;
          st1 = st\<lparr>st_trace := st_trace st @ [Processing link, FetchURL url]\<rparr>
      in if \<not> has_excerpt env le then st1
         else if \<not> lemmyConfigured cfg \<and> \<not> mastodonConfigured cfg then mark_failed link st1
         else
           let st2 = st1\<lparr>st_config := fst (snd (mastodon_post_step tm le link cfg)),
                        st_trace := st_trace st1 @ snd (lemmy_post_step tm jwt cid le url cfg)
                                      @ snd (snd (mastodon_post_step tm le link cfg))\<rparr>
           in if link_fails tm jwt cid le link cfg then mark_failed link st2
              else mark_published link st2)"
  by (simp add: process_link_def has_excerpt_def link_fails_def Let_def case_prod_beta
       split: sum.split)

lemma process_link_data:
  "st_data (process_link tm jwt cid env le link st) =
     (if \<not> has_excerpt env le then st_data st
      else if (\<not> lemmyConfigured (st_config st) \<and> \<not> mastodonConfigured (st_config st))
              \<or> link_fails tm jwt cid le link (st_config st)
      then (st_data st)\<lparr>FailedLinks := FailedLinks (st_data st) @ [link]\<rparr>
      else (st_data st)\<lparr>Links := Links (st_data st) @ [link]\<rparr>)"
  by (simp add: process_link_unfold Let_def mark_failed_def mark_published_def)

lemma process_link_config:
  "st_config (process_link tm jwt cid env le link st) =
     (if has_excerpt env le \<and> (lemmyConfigured (st_config st) \<or> mastodonConfigured (st_config st))
      then fst (snd (mastodon_post_step tm le link (st_config st)))
      else st_config st)"
  by (simp add: process_link_unfold Let_def mark_failed_def mark_published_def)

lemma process_link_events:
  "st_trace (process_link tm jwt cid env le link st) =
     st_trace st @ [Processing link, FetchURL (pageURL_of (st_config st) link)]
       @ (if has_excerpt env le \<and> (lemmyConfigured (st_config st) \<or> mastodonConfigured (st_config st))
          then snd (lemmy_post_step tm jwt cid le (pageURL_of (st_config st) link) (st_config st))
                 @ snd (snd (mastodon_post_step tm le link (st_config st)))
          else [])"
  by (simp add: process_link_unfold Let_def mark_failed_def mark_published_def)


subsection \<open>The loop and the cycle\<close>



lemma process_link_data_cases:
  "st_data (process_link tm jwt cid env le link st) = st_data st
   \<or> st_data (process_link tm jwt cid env le link st)
        = (st_data st)\<lparr>FailedLinks := FailedLinks (st_data st) @ [link]\<rparr>
   \<or> st_data (process_link tm jwt cid env le link st)
        = (st_data st)\<lparr>Links := Links (st_data st) @ [link]\<rparr>"
  by (simp add: process_link_data)

lemma process_links_distinct:
  "distinct (Links (st_data st) @ FailedLinks (st_data st) @ ls) \<Longrightarrow>
   distinct (Links (st_data (process_links tm jwt cid env i ls st))
             @ FailedLinks (st_data (process_links tm jwt cid env i ls st)))"
proof (induction ls arbitrary: i st)
  case Nil
  then show ?case by simp
next
  case (Cons l ls)
  let ?st = "process_link tm jwt cid env (per_link env i) l st"
  from process_link_data_cases [of tm jwt cid env "per_link env i" l st] Cons.prems
  have "distinct (Links (st_data ?st) @ FailedLinks (st_data ?st) @ ls)"
    by auto
  from Cons.IH [OF this] show ?case by simp
qed

lemma process_links_disjoint:
  "set (Links (st_data st)) \<inter> set (FailedLinks (st_data st)) = {} \<Longrightarrow>
   distinct ls \<Longrightarrow> set ls \<inter> (set (Links (st_data st)) \<union> set (FailedLinks (st_data st))) = {} \<Longrightarrow>
   set (Links (st_data (process_links tm jwt cid env i ls st)))
     \<inter> set (FailedLinks (st_data (process_links tm jwt cid env i ls st))) = {}"
proof (induction ls arbitrary: i st)
  case Nil
  then show ?case by simp
next
  case (Cons l ls)
  let ?st = "process_link tm jwt cid env (per_link env i) l st"
  from process_link_data_cases [of tm jwt cid env "per_link env i" l st] Cons.prems
  have "set (Links (st_data ?st)) \<inter> set (FailedLinks (st_data ?st)) = {}
        \<and> distinct ls
        \<and> set ls \<inter> (set (Links (st_data ?st)) \<union> set (FailedLinks (st_data ?st))) = {}"
    by auto
  with Cons.IH [of ?st "Suc i"] show ?case by simp
qed

lemma publish_phase_cases:
  "newLinks = [] \<and> publish_phase cfg tm env newLinks d = \<lparr>st_data = d, st_config = cfg, st_trace = []\<rparr>
   \<or> newLinks \<noteq> [] \<and> (\<exists>jwt cid cfg1 evs.
        publish_phase cfg tm env newLinks d
          = process_links tm jwt cid env 0 newLinks
              \<lparr>st_data = d\<lparr>FailedLinks := []\<rparr>, st_config = cfg1, st_trace = evs\<rparr>)"
  by (cases "lemmy_token_phase env cfg"; cases "community_phase env (fst (lemmy_token_phase env cfg))")
     (auto simp: publish_phase_def)

lemma link_map_eq: "link_map xs = (\<lambda>l. l \<in> set xs)"
  by (rule ext) (simp add: link_map_iff)

lemma drop_removed_data:
  "FailedLinks (st_data (drop_removed cur rem st)) = FailedLinks (st_data st)"
  "Links (st_data (drop_removed cur rem st))
     = (if rem = [] then Links (st_data st) else filter (\<lambda>l. l \<in> set cur) (Links (st_data st)))"
  by (simp_all add: drop_removed_def Let_def fold_keep link_map_eq)

lemma reconcile_data:
  "FailedLinks (st_data (reconcile cfg tm env cur d))
     = FailedLinks (st_data (publish_phase cfg tm env (findNewLinks cur (Links d) (FailedLinks d)) d))"
  "Links (st_data (reconcile cfg tm env cur d))
     = (if findRemovedLinks cur (Links d) = []
        then Links (st_data (publish_phase cfg tm env (findNewLinks cur (Links d) (FailedLinks d)) d))
        else filter (\<lambda>l. l \<in> set cur)
               (Links (st_data (publish_phase cfg tm env (findNewLinks cur (Links d) (FailedLinks d)) d))))"
  by (simp_all add: reconcile_def Let_def drop_removed_data)

lemma checkWebsite_written:
  assumes "written (checkWebsite cfg tm env file) = Some d'"
  shows "\<exists>html cur d. main_page env = Inr html
           \<and> extractLinks (query_hrefs env) (equalFold env) html (IgnoreDirs cfg) = Inr cur
           \<and> loadLinkData (load_now env) file = Inr d
           \<and> save_links env = None
           \<and> d' = st_data (reconcile cfg tm env cur d)"
  using assms
  by (auto simp: checkWebsite_def Let_def split: sum.splits option.splits)

lemma checkWebsite_ran:
  assumes "main_page env = Inr html"
    and "extractLinks (query_hrefs env) (equalFold env) html (IgnoreDirs cfg) = Inr cur"
    and "loadLinkData (load_now env) file = Inr d"
  shows "written (checkWebsite cfg tm env file)
           = (case save_links env of Some e \<Rightarrow> None | None \<Rightarrow> Some (st_data (reconcile cfg tm env cur d)))"
    and "trace (checkWebsite cfg tm env file)
           = [FetchURL (URL cfg), ReadDataFile] @ st_trace (reconcile cfg tm env cur d) @ [WriteDataFile]
               @ (case save_links env of Some e \<Rightarrow> [] | None \<Rightarrow> [WriteConfig])"
  using assms
  by (simp_all add: checkWebsite_def Let_def split: sum.splits option.splits)

lemma publish_phase_eq:
  assumes "lemmy_token_phase env cfg = (jwt, cfg1, ev1)"
    and "community_phase env jwt = (cid, ev2)"
    and "newLinks \<noteq> []"
  shows "publish_phase cfg tm env newLinks d
           = process_links tm jwt cid env 0 newLinks
               \<lparr>st_data = d\<lparr>FailedLinks := []\<rparr>, st_config = cfg1, st_trace = ev1 @ ev2\<rparr>"
  using assms by (simp add: publish_phase_def)

lemma publish_phase_idle:
  "publish_phase cfg tm env [] d = \<lparr>st_data = d, st_config = cfg, st_trace = []\<rparr>"
  by (simp add: publish_phase_def)

lemma reconcile_LastSeen: "LastSeen (st_data (reconcile cfg tm env cur d)) = save_now env"
  by (simp add: reconcile_def Let_def)

lemma LinkData_eqI:
  "Links d = a \<Longrightarrow> FailedLinks d = b \<Longrightarrow> LastSeen d = c
     \<Longrightarrow> d = \<lparr>Links = a, FailedLinks = b, LastSeen = c\<rparr>"
  by (cases d) simp

lemma reconcile_disjoint:
  assumes "set (Links d) \<inter> set (FailedLinks d) = {}"
    and "distinct (findNewLinks cur (Links d) (FailedLinks d))"
  shows "set (Links (st_data (reconcile cfg tm env cur d)))
           \<inter> set (FailedLinks (st_data (reconcile cfg tm env cur d))) = {}"
proof -
  let ?new = "findNewLinks cur (Links d) (FailedLinks d)"
  let ?P = "st_data (publish_phase cfg tm env ?new d)"
  have P: "set (Links ?P) \<inter> set (FailedLinks ?P) = {}"
  proof -
    from publish_phase_cases [of ?new cfg tm env d]
    consider "publish_phase cfg tm env ?new d = \<lparr>st_data = d, st_config = cfg, st_trace = []\<rparr>"
      | jwt cid cfg1 evs where "publish_phase cfg tm env ?new d
          = process_links tm jwt cid env 0 ?new
              \<lparr>st_data = d\<lparr>FailedLinks := []\<rparr>, st_config = cfg1, st_trace = evs\<rparr>"
      by blast
    then show ?thesis
    proof cases
      case 1
      with assms(1) show ?thesis by simp
    next
      case 2
      have "set ?new \<inter> set (Links d) = {}"
        using assms(1) by (auto simp: findNewLinks_eq)
      with assms(2) show ?thesis
        unfolding 2 by (intro process_links_disjoint) auto
    qed
  qed
  then show ?thesis
    by (auto simp: reconcile_data)
qed

lemma reconcile_distinct:
  assumes "distinct (Links d)" and "distinct (FailedLinks d)"
    and "set (Links d) \<inter> set (FailedLinks d) = {}"
    and "distinct (findNewLinks cur (Links d) (FailedLinks d))"
  shows "distinct (Links (st_data (reconcile cfg tm env cur d)))
         \<and> distinct (FailedLinks (st_data (reconcile cfg tm env cur d)))"
proof -
  let ?new = "findNewLinks cur (Links d) (FailedLinks d)"
  let ?P = "st_data (publish_phase cfg tm env ?new d)"
  have P: "distinct (Links ?P @ FailedLinks ?P)"
  proof -
    from publish_phase_cases [of ?new cfg tm env d]
    consider "publish_phase cfg tm env ?new d = \<lparr>st_data = d, st_config = cfg, st_trace = []\<rparr>"
      | jwt cid cfg1 evs where "publish_phase cfg tm env ?new d
          = process_links tm jwt cid env 0 ?new
              \<lparr>st_data = d\<lparr>FailedLinks := []\<rparr>, st_config = cfg1, st_trace = evs\<rparr>"
      by blast
    then show ?thesis
    proof cases
      case 1
      with assms(1,2,3) show ?thesis by simp
    next
      case 2
      have "set ?new \<inter> set (Links d) = {}"
        using assms(3) by (auto simp: findNewLinks_eq)
      with assms(1,4) show ?thesis
        unfolding 2 by (intro process_links_distinct) auto
    qed
  qed
  then show ?thesis
    by (auto simp: reconcile_data)
qed

subsection \<open>Cycles without a configured platform\<close>

lemma process_link_bare:
  assumes "\<not> lemmyConfigured (st_config st)" and "\<not> mastodonConfigured (st_config st)"
  shows "st_config (process_link tm jwt cid env le link st) = st_config st"
    and "Links (st_data (process_link tm jwt cid env le link st)) = Links (st_data st)"
    and "FailedLinks (st_data (process_link tm jwt cid env le link st))
           = FailedLinks (st_data st) @ (if has_excerpt env le then [link] else [])"
    and "filter is_publish_call (st_trace (process_link tm jwt cid env le link st))
           = filter is_publish_call (st_trace st)"
  using assms by (simp_all add: process_link_config process_link_data process_link_events)

lemma process_links_bare:
  assumes "\<not> lemmyConfigured (st_config st)" and "\<not> mastodonConfigured (st_config st)"
  shows "Links (st_data (process_links tm jwt cid env i ls st)) = Links (st_data st)
       \<and> FailedLinks (st_data (process_links tm jwt cid env i ls st))
           = FailedLinks (st_data st)
               @ map snd (filter (\<lambda>(k, link). has_excerpt env (per_link env k)) (enumerate i ls))
       \<and> filter is_publish_call (st_trace (process_links tm jwt cid env i ls st))
           = filter is_publish_call (st_trace st)"
  using assms
proof (induction ls arbitrary: i st)
  case Nil
  then show ?case by simp
next
  case (Cons l ls)
  let ?st = "process_link tm jwt cid env (per_link env i) l st"
  from process_link_bare(1) [OF Cons.prems] have C: "st_config ?st = st_config st" .
  from Cons.IH [of ?st "Suc i"] Cons.prems C
  show ?case
    by (simp add: process_link_bare [OF Cons.prems])
qed

lemma token_phase_configured:
  "lemmyConfigured (fst (snd (lemmy_token_phase env cfg))) = lemmyConfigured cfg"
  "mastodonConfigured (fst (snd (lemmy_token_phase env cfg))) = mastodonConfigured cfg"
  by (simp_all add: lemmy_token_phase_def lemmyConfigured_def mastodonConfigured_def split: sum.split)

lemma token_phase_quiet: "filter is_publish_call (snd (snd (lemmy_token_phase env cfg))) = []"
  by (simp add: lemmy_token_phase_def split: sum.split)

lemma community_phase_quiet: "filter is_publish_call (snd (community_phase env jwt)) = []"
  by (simp add: community_phase_def split: sum.split)

lemma publish_phase_bare:
  assumes "\<not> lemmyConfigured cfg" and "\<not> mastodonConfigured cfg"
  shows "Links (st_data (publish_phase cfg tm env new d)) = Links d"
    and "new \<noteq> [] \<Longrightarrow> FailedLinks (st_data (publish_phase cfg tm env new d))
           = map snd (filter (\<lambda>(k, link). has_excerpt env (per_link env k)) (enumerate 0 new))"
    and "filter is_publish_call (st_trace (publish_phase cfg tm env new d)) = []"
proof -
  obtain jwt cfg1 ev1 where A: "lemmy_token_phase env cfg = (jwt, cfg1, ev1)"
    by (cases "lemmy_token_phase env cfg") auto
  obtain cid ev2 where B: "community_phase env jwt = (cid, ev2)"
    by (cases "community_phase env jwt") auto
  let ?st = "\<lparr>st_data = d\<lparr>FailedLinks := []\<rparr>, st_config = cfg1, st_trace = ev1 @ ev2\<rparr>"
  from token_phase_configured [of env cfg] A assms
  have C: "\<not> lemmyConfigured (st_config ?st)" "\<not> mastodonConfigured (st_config ?st)" by simp_all
  from token_phase_quiet [of env cfg] A have Q1: "filter is_publish_call ev1 = []" by simp
  from community_phase_quiet [of env jwt] B have Q2: "filter is_publish_call ev2 = []" by simp
  note L = process_links_bare [OF C, of tm jwt cid env 0 new]
  show "Links (st_data (publish_phase cfg tm env new d)) = Links d"
    using L by (cases "new = []") (simp_all add: publish_phase_idle publish_phase_eq [OF A B])
  show "new \<noteq> [] \<Longrightarrow> FailedLinks (st_data (publish_phase cfg tm env new d))
           = map snd (filter (\<lambda>(k, link). has_excerpt env (per_link env k)) (enumerate 0 new))"
    using L by (simp add: publish_phase_eq [OF A B])
  show "filter is_publish_call (st_trace (publish_phase cfg tm env new d)) = []"
    using L Q1 Q2 by (cases "new = []") (simp_all add: publish_phase_idle publish_phase_eq [OF A B])
qed

lemma filter_observed:
  "(if findRemovedLinks cur saved = [] then saved else filter (\<lambda>l. l \<in> set cur) saved)
     = filter (\<lambda>l. l \<in> set cur) saved"
  by (auto simp: findRemovedLinks_eq filter_empty_conv filter_id_conv)

lemma reconcile_trace: "st_trace (reconcile cfg tm env cur d)
     = st_trace (publish_phase cfg tm env (findNewLinks cur (Links d) (FailedLinks d)) d)"
  by (simp add: reconcile_def Let_def drop_removed_trace)

lemma reconcile_bare:
  assumes "\<not> lemmyConfigured cfg" and "\<not> mastodonConfigured cfg"
  shows "Links (st_data (reconcile cfg tm env cur d)) = filter (\<lambda>l. l \<in> set cur) (Links d)"
    and "FailedLinks (st_data (reconcile cfg tm env cur d))
           = map snd (filter (\<lambda>(k, link). has_excerpt env (per_link env k))
                (enumerate 0 (findNewLinks cur (Links d) (FailedLinks d))))"
    and "filter is_publish_call (st_trace (reconcile cfg tm env cur d)) = []"
proof -
  show "Links (st_data (reconcile cfg tm env cur d)) = filter (\<lambda>l. l \<in> set cur) (Links d)"
    by (simp only: reconcile_data publish_phase_bare(1) [OF assms] filter_observed)
  show "FailedLinks (st_data (reconcile cfg tm env cur d))
           = map snd (filter (\<lambda>(k, link). has_excerpt env (per_link env k))
                (enumerate 0 (findNewLinks cur (Links d) (FailedLinks d))))"
  proof (cases "findNewLinks cur (Links d) (FailedLinks d) = []")
    case True
    then have "FailedLinks d = []" by (simp add: findNewLinks_eq)
    with True show ?thesis by (simp add: reconcile_data publish_phase_idle)
  next
    case False
    then show ?thesis by (simp add: reconcile_data publish_phase_bare(2) [OF assms])
  qed
  show "filter is_publish_call (st_trace (reconcile cfg tm env cur d)) = []"
    by (simp add: reconcile_trace publish_phase_bare(3) [OF assms])
qed

lemma checkWebsite_bare_quiet:
  assumes "\<not> lemmyConfigured cfg" and "\<not> mastodonConfigured cfg"
  shows "filter is_publish_call (trace (checkWebsite cfg tm env file)) = []"
  by (simp add: checkWebsite_def Let_def reconcile_bare(3) [OF assms] split: sum.split option.split)

lemma loaded_published: "loadLinkData now file = Inr d \<Longrightarrow> Links d = published_of file"
  by (auto simp: loadLinkData_def published_of_def split: file_res.splits)

lemma checkWebsite_bare_published:
  assumes "\<not> lemmyConfigured cfg" and "\<not> mastodonConfigured cfg"
  shows "set (published_of (file_after file (checkWebsite cfg tm env file))) \<subseteq> set (published_of file)"
proof (cases "written (checkWebsite cfg tm env file)")
  case None
  then show ?thesis by (simp add: file_after_def)
next
  case (Some d')
  from checkWebsite_written [OF Some] obtain cur d where
    L: "loadLinkData (load_now env) file = Inr d" and D: "d' = st_data (reconcile cfg tm env cur d)"
    by blast
  from Some D loaded_published [OF L] show ?thesis
    by (auto simp: file_after_def published_of_def reconcile_bare(1) [OF assms])
qed

lemma run_ticks_bare:
  assumes "\<not> lemmyConfigured cfg" and "\<not> mastodonConfigured cfg"
  shows "set (published_of (fst (run_ticks cfg tm envs fl))) \<subseteq> set (published_of fl)
       \<and> filter is_publish_call (snd (run_ticks cfg tm envs fl)) = []"
proof (induction envs arbitrary: fl)
  case Nil
  then show ?case by simp
next
  case (Cons env envs)
  let ?file = "file_after fl (checkWebsite cfg tm env fl)"
  from Cons.IH [of ?file] checkWebsite_bare_published [OF assms, of fl tm env]
    checkWebsite_bare_quiet [OF assms, of tm env fl]
  show ?case
    by (auto simp: Let_def split: prod.split)
qed

subsection \<open>Login calls\<close>

lemma process_link_lemmy_logins:
  "count_list (st_trace (process_link tm jwt cid env le link st)) LemmyLogin
     = count_list (st_trace st) LemmyLogin"
proof -
  from mastodon_post_step_events [of tm le link "st_config st"]
  have "LemmyLogin \<notin> set (snd (snd (mastodon_post_step tm le link (st_config st))))" by auto
  then show ?thesis
    by (simp add: process_link_events lemmy_post_step_snd)
qed

lemma process_links_lemmy_logins:
  "count_list (st_trace (process_links tm jwt cid env i ls st)) LemmyLogin
     = count_list (st_trace st) LemmyLogin"
  by (induction ls arbitrary: i st) (simp_all add: process_link_lemmy_logins)

lemma token_phase_logins:
  "count_list (snd (snd (lemmy_token_phase env cfg))) LemmyLogin
     = (if LemmyToken cfg \<noteq> [] \<and> lemmy_now env < LemmyTokenExp cfg then 0 else 1)"
  by (simp add: lemmy_token_phase_def split: sum.split)

lemma community_phase_logins: "count_list (snd (community_phase env jwt)) LemmyLogin = 0"
  by (simp add: community_phase_def split: sum.split)

lemma publish_phase_lemmy_logins:
  "count_list (st_trace (publish_phase cfg tm env new d)) LemmyLogin
     = (if new = [] \<or> (LemmyToken cfg \<noteq> [] \<and> lemmy_now env < LemmyTokenExp cfg) then 0 else 1)"
proof -
  obtain jwt cfg1 ev1 where A: "lemmy_token_phase env cfg = (jwt, cfg1, ev1)"
    by (cases "lemmy_token_phase env cfg") auto
  obtain cid ev2 where B: "community_phase env jwt = (cid, ev2)"
    by (cases "community_phase env jwt") auto
  from token_phase_logins [of env cfg] A
  have 1: "count_list ev1 LemmyLogin
     = (if LemmyToken cfg \<noteq> [] \<and> lemmy_now env < LemmyTokenExp cfg then 0 else 1)" by simp
  from community_phase_logins [of env jwt] B have 2: "count_list ev2 LemmyLogin = 0" by simp
  show ?thesis
    using 1 2
    by (cases "new = []")
       (simp_all add: publish_phase_idle publish_phase_eq [OF A B] process_links_lemmy_logins)
qed

lemma checkWebsite_lemmy_logins:
  "count_list (trace (checkWebsite cfg tm env file)) LemmyLogin
     = (case main_page env of
          Inl e \<Rightarrow> 0
        | Inr html \<Rightarrow>
           (case extractLinks (query_hrefs env) (equalFold env) html (IgnoreDirs cfg) of
              Inl e \<Rightarrow> 0
            | Inr cur \<Rightarrow>
               (case loadLinkData (load_now env) file of
                  Inl e \<Rightarrow> 0
                | Inr d \<Rightarrow>
                    if findNewLinks cur (Links d) (FailedLinks d) = []
                       \<or> (LemmyToken cfg \<noteq> [] \<and> lemmy_now env < LemmyTokenExp cfg)
                    then 0 else 1)))"
  by (simp add: checkWebsite_def Let_def reconcile_trace publish_phase_lemmy_logins
       split: sum.split option.split)

text \<open>Mastodon: no refresh while the cached token has not expired.\<close>

lemma mastodon_fresh_step:
  assumes "mastodon_now le \<le> MastodonTokenExp cfg"
  shows "fst (snd (mastodon_post_step tm le link cfg)) = cfg"
    and "MastodonLogin \<notin> set (snd (snd (mastodon_post_step tm le link cfg)))"
proof -
  have R: "mastodonConfigured cfg \<longrightarrow> \<not> mastodon_refresh_due le cfg"
    using assms by (simp add: mastodon_refresh_due_def mastodonConfigured_def)
  show "fst (snd (mastodon_post_step tm le link cfg)) = cfg"
    using R by (auto simp: mastodon_post_step_config)
  show "MastodonLogin \<notin> set (snd (snd (mastodon_post_step tm le link cfg)))"
    using R mastodon_post_step_no_login [of le cfg tm link] mastodon_post_step_quiet [of cfg tm le link]
    by (cases "mastodonConfigured cfg") auto
qed

lemma process_link_fresh:
  assumes "mastodon_now le \<le> MastodonTokenExp (st_config st)"
  shows "st_config (process_link tm jwt cid env le link st) = st_config st"
    and "count_list (st_trace (process_link tm jwt cid env le link st)) MastodonLogin
           = count_list (st_trace st) MastodonLogin"
  using mastodon_fresh_step [OF assms, of tm link]
  by (simp_all add: process_link_config process_link_events lemmy_post_step_snd)

lemma process_links_fresh:
  assumes "\<And>k. mastodon_now (per_link env k) \<le> MastodonTokenExp (st_config st)"
  shows "count_list (st_trace (process_links tm jwt cid env i ls st)) MastodonLogin
           = count_list (st_trace st) MastodonLogin"
  using assms
proof (induction ls arbitrary: i st)
  case Nil
  then show ?case by simp
next
  case (Cons l ls)
  let ?st = "process_link tm jwt cid env (per_link env i) l st"
  note S = process_link_fresh [OF Cons.prems [of i], of tm jwt cid env l]
  from Cons.prems S(1) have "\<And>k. mastodon_now (per_link env k) \<le> MastodonTokenExp (st_config ?st)"
    by simp
  from Cons.IH [OF this, of "Suc i"] S(2) show ?case by simp
qed

lemma token_phase_mastodon:
  "MastodonTokenExp (fst (snd (lemmy_token_phase env cfg))) = MastodonTokenExp cfg"
  "count_list (snd (snd (lemmy_token_phase env cfg))) MastodonLogin = 0"
  by (simp_all add: lemmy_token_phase_def split: sum.split)

lemma community_phase_mastodon: "count_list (snd (community_phase env jwt)) MastodonLogin = 0"
  by (simp add: community_phase_def split: sum.split)

lemma publish_phase_fresh:
  assumes "\<And>k. mastodon_now (per_link env k) \<le> MastodonTokenExp cfg"
  shows "count_list (st_trace (publish_phase cfg tm env new d)) MastodonLogin = 0"
proof -
  obtain jwt cfg1 ev1 where A: "lemmy_token_phase env cfg = (jwt, cfg1, ev1)"
    by (cases "lemmy_token_phase env cfg") auto
  obtain cid ev2 where B: "community_phase env jwt = (cid, ev2)"
    by (cases "community_phase env jwt") auto
  let ?st = "\<lparr>st_data = d\<lparr>FailedLinks := []\<rparr>, st_config = cfg1, st_trace = ev1 @ ev2\<rparr>"
  from token_phase_mastodon [of env cfg] A
  have 1: "MastodonTokenExp cfg1 = MastodonTokenExp cfg" "count_list ev1 MastodonLogin = 0"
    by simp_all
  from community_phase_mastodon [of env jwt] B have 2: "count_list ev2 MastodonLogin = 0" by simp
  from assms 1 have "\<And>k. mastodon_now (per_link env k) \<le> MastodonTokenExp (st_config ?st)"
    by simp
  from process_links_fresh [OF this, of tm jwt cid 0 new] 1 2
  show ?thesis
    by (cases "new = []") (simp_all add: publish_phase_idle publish_phase_eq [OF A B])
qed

lemma checkWebsite_fresh:
  assumes "\<And>k. mastodon_now (per_link env k) \<le> MastodonTokenExp cfg"
  shows "count_list (trace (checkWebsite cfg tm env file)) MastodonLogin = 0"
  by (simp add: checkWebsite_def Let_def reconcile_trace publish_phase_fresh [OF assms]
       split: sum.split option.split)

subsection \<open>The outcome of one link\<close>

lemma process_link_outcome:
  assumes "\<not> tm"
    and "lemmyConfigured (st_config st) \<or> mastodonConfigured (st_config st)"
    and "has_excerpt env le"
  shows "st_data (process_link tm jwt cid env le link st) =
     (if (lemmyConfigured (st_config st) \<longrightarrow> lemmy_publish_ok jwt le)
         \<and> (mastodonConfigured (st_config st) \<longrightarrow> mastodon_publish_ok le (st_config st))
      then (st_data st)\<lparr>Links := Links (st_data st) @ [link]\<rparr>
      else (st_data st)\<lparr>FailedLinks := FailedLinks (st_data st) @ [link]\<rparr>)"
  using assms
  by (auto simp: process_link_data link_fails_def lemmy_post_step_fst mastodon_post_step_fst
       mastodon_publish_ok_def)




subsection \<open>Dry runs\<close>

lemma mastodon_post_step_dry:
  "filter is_publish_call (snd (snd (mastodon_post_step True le link cfg))) = []"
  by (simp add: mastodon_post_step_def mastodon_token_step_eq split: sum.split prod.split)

lemma process_link_dry:
  "filter is_publish_call (st_trace (process_link True jwt cid env le link st))
     = filter is_publish_call (st_trace st)"
  by (simp add: process_link_events lemmy_post_step_snd mastodon_post_step_dry)

lemma process_links_dry:
  "filter is_publish_call (st_trace (process_links True jwt cid env i ls st))
     = filter is_publish_call (st_trace st)"
  by (induction ls arbitrary: i st) (simp_all add: process_link_dry)

lemma publish_phase_dry:
  "filter is_publish_call (st_trace (publish_phase cfg True env new d)) = []"
proof -
  obtain jwt cfg1 ev1 where A: "lemmy_token_phase env cfg = (jwt, cfg1, ev1)"
    by (cases "lemmy_token_phase env cfg") auto
  obtain cid ev2 where B: "community_phase env jwt = (cid, ev2)"
    by (cases "community_phase env jwt") auto
  from token_phase_quiet [of env cfg] A have Q1: "filter is_publish_call ev1 = []" by simp
  from community_phase_quiet [of env jwt] B have Q2: "filter is_publish_call ev2 = []" by simp
  show ?thesis
    using Q1 Q2
    by (cases "new = []")
       (simp_all add: publish_phase_idle publish_phase_eq [OF A B] process_links_dry)
qed

lemma checkWebsite_dry:
  "filter is_publish_call (trace (checkWebsite cfg True env file)) = []"
  by (simp add: checkWebsite_def Let_def reconcile_trace publish_phase_dry
       split: sum.split option.split)

subsection \<open>Calls to a platform that is not configured\<close>










subsection \<open>Mastodon login calls\<close>

lemma mastodon_post_step_logins:
  "count_list (snd (snd (mastodon_post_step tm le link cfg))) MastodonLogin
     = (if mastodonConfigured cfg \<and> mastodon_refresh_due le cfg then 1 else 0)"
  by (simp add: mastodon_post_step_def mastodon_token_step_eq split: sum.split prod.split option.split)

lemma process_link_mastodon_logins:
  "count_list (st_trace (process_link tm jwt cid env le link st)) MastodonLogin
     = count_list (st_trace st) MastodonLogin
       + (if has_excerpt env le \<and> mastodonConfigured (st_config st)
             \<and> mastodon_refresh_due le (st_config st) then 1 else 0)"
  by (simp add: process_link_events lemmy_post_step_snd mastodon_post_step_logins)

lemma process_links_refused:
  assumes "mastodonConfigured (st_config st)"
    and "\<And>k. has_excerpt env (per_link env k)"
    and "\<And>k. mastodon_refresh_due (per_link env k) (st_config st)"
    and "\<And>k. \<exists>e. mastodon_login (per_link env k) = Inl e"
  shows "st_config (process_links tm jwt cid env i ls st) = st_config st
       \<and> count_list (st_trace (process_links tm jwt cid env i ls st)) MastodonLogin
           = count_list (st_trace st) MastodonLogin + length ls"
  using assms(1,3)
proof (induction ls arbitrary: i st)
  case Nil
  then show ?case by simp
next
  case (Cons l ls)
  let ?st = "process_link tm jwt cid env (per_link env i) l st"
  from assms(4) [of i] obtain e where E: "mastodon_login (per_link env i) = Inl e" by blast
  have C: "st_config ?st = st_config st"
    using Cons.prems(1) Cons.prems(2) [of i] assms(2) [of i]
    by (simp add: process_link_config mastodon_post_step_config E)
  have N: "count_list (st_trace ?st) MastodonLogin = count_list (st_trace st) MastodonLogin + 1"
    using Cons.prems(1) Cons.prems(2) [of i] assms(2) [of i]
    by (simp add: process_link_mastodon_logins)
  from Cons.IH [of ?st "Suc i"] Cons.prems C N show ?case by simp
qed

subsection \<open>The sample inputs\<close>

lemma calm_env_sel:
  "main_page (calm_env hrefs) = Inr ''<html>''"
  "query_hrefs (calm_env hrefs) = (\<lambda>html. Inr hrefs)"
  "equalFold (calm_env hrefs) = (\<lambda>a b. a = b)"
  "load_now (calm_env hrefs) = 100"
  "lemmy_now (calm_env hrefs) = 100"
  "lemmy_login (calm_env hrefs) = Inr ''jwt''"
  "lemmy_login_now (calm_env hrefs) = 100"
  "community_id (calm_env hrefs) = Inr 7"
  "extractTextBetweenHR (calm_env hrefs) = (\<lambda>content. Inr (''Titel'', ''Verkauf''))"
  "per_link (calm_env hrefs) = (\<lambda>i. calm_link)"
  "save_now (calm_env hrefs) = 100"
  "save_links (calm_env hrefs) = None"
  "save_config (calm_env hrefs) = None"
  by (simp_all add: calm_env_def)

lemma DefaultConfig_sel:
  "IgnoreDirs DefaultConfig = [''guetersloh'']"
  "LemmyToken DefaultConfig = []"
  "LemmyTokenExp DefaultConfig = zero_time"
  "MastodonServer DefaultConfig = []"
  "MastodonAccessToken DefaultConfig = []"
  "MastodonToken DefaultConfig = []"
  "MastodonTokenExp DefaultConfig = zero_time"
  "lemmyConfigured DefaultConfig"
  "\<not> mastodonConfigured DefaultConfig"
  by (simp_all add: DefaultConfig_def lemmyConfigured_def mastodonConfigured_def)

lemma wanted_a: "link_wanted (\<lambda>a b. a = b) [''guetersloh''] ''a/index.htm''"
  by (simp add: link_wanted_def HasPrefix_def HasSuffix_def)

lemma wanted_b: "link_wanted (\<lambda>a b. a = b) [''guetersloh''] ''b/index.htm''"
  by (simp add: link_wanted_def HasPrefix_def HasSuffix_def)

lemma unwanted_g: "\<not> link_wanted (\<lambda>a b. a = b) [''guetersloh''] ''guetersloh/index.htm''"
  by (simp add: link_wanted_def HasPrefix_def HasSuffix_def)

lemma unwanted_top: "\<not> link_wanted (\<lambda>a b. a = b) [''guetersloh''] ''#top''"
  by (simp add: link_wanted_def HasPrefix_def HasSuffix_def)

lemma calm_env_observed:
  "extractLinks (query_hrefs (calm_env [''b/index.htm'', ''a/index.htm''])) (equalFold (calm_env [''b/index.htm'', ''a/index.htm'']))
      ''<html>'' (IgnoreDirs DefaultConfig) = Inr [''b/index.htm'', ''a/index.htm'']"
  by (simp add: extractLinks_def extractLinks_loop_eq calm_env_sel DefaultConfig_sel wanted_a wanted_b)

subsection \<open>Evaluating a cycle\<close>

lemma checkWebsite_writtenI:
  assumes "main_page env = Inr html"
    and "extractLinks (query_hrefs env) (equalFold env) html (IgnoreDirs cfg) = Inr cur"
    and "loadLinkData (load_now env) file = Inr d"
    and "save_links env = None"
    and "Links (st_data (reconcile cfg tm env cur d)) = a"
    and "FailedLinks (st_data (reconcile cfg tm env cur d)) = b"
    and "save_now env = c"
  shows "written (checkWebsite cfg tm env file) = Some \<lparr>Links = a, FailedLinks = b, LastSeen = c\<rparr>"
  unfolding checkWebsite_ran(1) [OF assms(1,2,3)]
  using assms(4,5,6,7) by (simp add: LinkData_eqI reconcile_LastSeen)

lemma calm_link_sel:
  "page calm_link = Inr ''<hr>Verkauf<hr>''"
  "lemmy_post calm_link = None"
  "mastodon_now calm_link = 100"
  "mastodon_login calm_link = Inr (''fresh'', 5000)"
  "mastodon_post calm_link = None"
  by (simp_all add: calm_link_def)

lemma configured_token_update:
  "lemmyConfigured (cfg\<lparr>LemmyToken := t, LemmyTokenExp := e\<rparr>) = lemmyConfigured cfg"
  "mastodonConfigured (cfg\<lparr>LemmyToken := t, LemmyTokenExp := e\<rparr>) = mastodonConfigured cfg"
  by (simp_all add: lemmyConfigured_def mastodonConfigured_def)

lemma sample_configured:
  "\<not> lemmyConfigured bare_config" "\<not> mastodonConfigured bare_config"
  "\<not> lemmyConfigured token_only_config" "\<not> mastodonConfigured token_only_config"
  "lemmyConfigured both_config" "mastodonConfigured both_config"
  "\<not> lemmyConfigured mastodon_only_config" "mastodonConfigured mastodon_only_config"
  by (simp_all add: bare_config_def token_only_config_def both_config_def
       mastodon_only_config_def DefaultConfig_def lemmyConfigured_def mastodonConfigured_def)

lemma sample_ignore:
  "IgnoreDirs bare_config = [''guetersloh'']"
  "IgnoreDirs token_only_config = [''guetersloh'']"
  "IgnoreDirs mastodon_only_config = [''guetersloh'']"
  by (simp_all add: bare_config_def token_only_config_def both_config_def
       mastodon_only_config_def DefaultConfig_sel)

lemma observed_a:
  "IgnoreDirs cfg = [''guetersloh''] \<Longrightarrow> query_hrefs env = (\<lambda>html. Inr [''a/index.htm''])
     \<Longrightarrow> equalFold env = (\<lambda>a b. a = b)
     \<Longrightarrow> extractLinks (query_hrefs env) (equalFold env) html (IgnoreDirs cfg) = Inr [''a/index.htm'']"
  by (simp add: extractLinks_def extractLinks_loop_eq wanted_a)

lemma observed_none:
  "query_hrefs env = (\<lambda>html. Inr [])
     \<Longrightarrow> extractLinks (query_hrefs env) (equalFold env) html (IgnoreDirs cfg) = Inr []"
  by (simp add: extractLinks_def)

lemma load_missing: "loadLinkData now FileMissing = Inr \<lparr>Links = [], FailedLinks = [], LastSeen = now\<rparr>"
  by (simp add: loadLinkData_def)

lemma load_data: "loadLinkData now (FileData d) = Inr d"
  by (simp add: loadLinkData_def)

lemma calm_has_excerpt: "has_excerpt (calm_env hrefs) calm_link"
  by (simp add: has_excerpt_def calm_env_sel calm_link_sel)

lemma calm_token_phase:
  "lemmy_token_phase (calm_env hrefs) DefaultConfig
     = (''jwt'', DefaultConfig\<lparr>LemmyToken := ''jwt'', LemmyTokenExp := 100 + Hour\<rparr>, [LemmyLogin])"
  by (simp add: lemmy_token_phase_def calm_env_sel DefaultConfig_sel)

lemma calm_community_phase:
  "community_phase (calm_env hrefs) ''jwt'' = (7, [LemmyGetCommunityID])"
  by (simp add: community_phase_def calm_env_sel)

lemmas link_eval = process_link_data process_link_config configured_token_update
  DefaultConfig_sel link_fails_def lemmy_post_step_fst lemmy_publish_ok_def
  mastodon_post_step_config mastodon_post_step_fst

text \<open>The calm cycle over \<open>two_state\<close>: \<open>b\<close> is new, \<open>z\<close> is retried, both are posted.\<close>

lemma calm_new: "findNewLinks [''b/index.htm'', ''a/index.htm''] (Links two_state) (FailedLinks two_state)
   = [''b/index.htm'', ''z/index.htm'']"
  by (simp add: findNewLinks_eq two_state_def)

lemma calm_removed: "findRemovedLinks [''b/index.htm'', ''a/index.htm''] (Links two_state) = []"
  by (simp add: findRemovedLinks_eq two_state_def)

lemma calm_publish:
  "st_data (publish_phase DefaultConfig False (calm_env [''b/index.htm'', ''a/index.htm''])
      [''b/index.htm'', ''z/index.htm''] two_state)
   = \<lparr>Links = [''a/index.htm'', ''b/index.htm'', ''z/index.htm''], FailedLinks = [], LastSeen = 0\<rparr>"
  by (simp add: publish_phase_eq [OF calm_token_phase calm_community_phase]
      link_eval calm_has_excerpt calm_env_sel calm_link_sel two_state_def)

lemma calm_written:
  "written (checkWebsite DefaultConfig False (calm_env [''b/index.htm'', ''a/index.htm''])
      (FileData two_state))
   = Some \<lparr>Links = [''a/index.htm'', ''b/index.htm'', ''z/index.htm''], FailedLinks = [], LastSeen = 100\<rparr>"
  by (rule checkWebsite_writtenI [OF _ calm_env_observed load_data])
     (simp_all add: calm_env_sel reconcile_data calm_new calm_removed calm_publish)

text \<open>
  Cycles over \<open>pending_state\<close> while \<open>a\<close> is still on the page: \<open>a\<close> is taken up
  twice.
\<close>

lemma pending_new: "findNewLinks [''a/index.htm''] (Links pending_state) (FailedLinks pending_state)
   = [''a/index.htm'', ''a/index.htm'']"
  by (simp add: findNewLinks_eq pending_state_def)

lemma pending_removed: "findRemovedLinks [''a/index.htm''] (Links pending_state) = []"
  by (simp add: findRemovedLinks_eq pending_state_def)

lemma flaky_env_sel:
  "main_page flaky_env = Inr ''<html>''"
  "query_hrefs flaky_env = (\<lambda>html. Inr [''a/index.htm''])"
  "equalFold flaky_env = (\<lambda>a b. a = b)"
  "save_now flaky_env = 100"
  "save_links flaky_env = None"
  "per_link flaky_env = (\<lambda>i. if i = 0 then rejected_link else calm_link)"
  by (simp_all add: flaky_env_def calm_env_sel)

lemma flaky_phases:
  "lemmy_token_phase flaky_env DefaultConfig
     = (''jwt'', DefaultConfig\<lparr>LemmyToken := ''jwt'', LemmyTokenExp := 100 + Hour\<rparr>, [LemmyLogin])"
  "community_phase flaky_env ''jwt'' = (7, [LemmyGetCommunityID])"
  by (simp_all add: lemmy_token_phase_def community_phase_def flaky_env_def calm_env_sel DefaultConfig_sel)

lemma rejected_link_sel:
  "page rejected_link = Inr ''<hr>Verkauf<hr>''"
  "lemmy_post rejected_link = Some (IOError ''HTTP 500'')"
  by (simp_all add: rejected_link_def calm_link_sel)

lemma flaky_excerpt: "has_excerpt flaky_env rejected_link" "has_excerpt flaky_env calm_link"
  by (simp_all add: has_excerpt_def flaky_env_def calm_env_sel rejected_link_sel calm_link_sel)

lemma flaky_publish:
  "st_data (publish_phase DefaultConfig False flaky_env [''a/index.htm'', ''a/index.htm''] pending_state)
   = \<lparr>Links = [''a/index.htm''], FailedLinks = [''a/index.htm''], LastSeen = 0\<rparr>"
  by (simp add: publish_phase_eq [OF flaky_phases] link_eval flaky_excerpt flaky_env_sel
      calm_link_sel rejected_link_sel pending_state_def)

lemma flaky_written:
  "written (checkWebsite DefaultConfig False flaky_env (FileData pending_state))
   = Some \<lparr>Links = [''a/index.htm''], FailedLinks = [''a/index.htm''], LastSeen = 100\<rparr>"
  by (rule checkWebsite_writtenI [OF _ observed_a load_data])
     (simp_all add: flaky_env_sel DefaultConfig_sel reconcile_data pending_new pending_removed
        flaky_publish)

lemma twice_publish:
  "st_data (publish_phase DefaultConfig False (calm_env [''a/index.htm''])
      [''a/index.htm'', ''a/index.htm''] pending_state)
   = \<lparr>Links = [''a/index.htm'', ''a/index.htm''], FailedLinks = [], LastSeen = 0\<rparr>"
  by (simp add: publish_phase_eq [OF calm_token_phase calm_community_phase] link_eval
      calm_has_excerpt calm_env_sel calm_link_sel pending_state_def)

lemma twice_written:
  "written (checkWebsite DefaultConfig False (calm_env [''a/index.htm'']) (FileData pending_state))
   = Some \<lparr>Links = [''a/index.htm'', ''a/index.htm''], FailedLinks = [], LastSeen = 100\<rparr>"
  by (rule checkWebsite_writtenI [OF _ observed_a load_data])
     (simp_all add: calm_env_sel DefaultConfig_sel reconcile_data pending_new pending_removed
        twice_publish)

text \<open>A dry run over an empty store.\<close>

lemma fresh_new: "findNewLinks [''a/index.htm''] [] [] = [''a/index.htm'']"
  by (simp add: findNewLinks_eq)

lemma fresh_removed: "findRemovedLinks cur [] = []"
  by (simp add: findRemovedLinks_eq)

lemma dry_publish:
  "st_data (publish_phase DefaultConfig True (calm_env [''a/index.htm'']) [''a/index.htm'']
      \<lparr>Links = [], FailedLinks = [], LastSeen = 100\<rparr>)
   = \<lparr>Links = [''a/index.htm''], FailedLinks = [], LastSeen = 100\<rparr>"
  by (simp add: publish_phase_eq [OF calm_token_phase calm_community_phase] link_eval
      calm_has_excerpt calm_env_sel calm_link_sel)

lemma dry_written:
  "written (checkWebsite DefaultConfig True (calm_env [''a/index.htm'']) FileMissing)
   = Some \<lparr>Links = [''a/index.htm''], FailedLinks = [], LastSeen = 100\<rparr>"
  by (rule checkWebsite_writtenI [OF _ observed_a load_missing])
     (simp_all add: calm_env_sel DefaultConfig_sel reconcile_data fresh_new fresh_removed
        dry_publish)

text \<open>Cycles without a configured platform.\<close>

lemma blank_env_sel:
  "main_page blank_env = Inr ''<html>''"
  "query_hrefs blank_env = (\<lambda>html. Inr [''a/index.htm''])"
  "equalFold blank_env = (\<lambda>a b. a = b)"
  "load_now blank_env = 100"
  "save_now blank_env = 100"
  "save_links blank_env = None"
  "per_link blank_env = (\<lambda>i. calm_link)"
  by (simp_all add: blank_env_def calm_env_sel)

lemma blank_excerpt: "\<not> has_excerpt blank_env calm_link"
  by (simp add: has_excerpt_def blank_env_def calm_env_sel calm_link_sel)

lemma blank_written:
  "written (checkWebsite bare_config False blank_env FileMissing)
   = Some \<lparr>Links = [], FailedLinks = [], LastSeen = 100\<rparr>"
  by (rule checkWebsite_writtenI [OF _ observed_a load_missing])
     (simp_all add: blank_env_sel sample_ignore reconcile_bare [OF sample_configured(1,2)]
        fresh_new blank_excerpt)

lemma bare_written:
  "written (checkWebsite bare_config False (calm_env [''a/index.htm'']) FileMissing)
   = Some \<lparr>Links = [], FailedLinks = [''a/index.htm''], LastSeen = 100\<rparr>"
  by (rule checkWebsite_writtenI [OF _ observed_a load_missing])
     (simp_all add: calm_env_sel sample_ignore reconcile_bare [OF sample_configured(1,2)]
        fresh_new calm_has_excerpt)


text \<open>Further facts about the sample inputs.\<close>

lemma calm_env_ran:
  "main_page (calm_env hrefs) = Inr ''<html>''"
  "query_hrefs (calm_env [''a/index.htm'']) = (\<lambda>html. Inr [''a/index.htm''])"
  "query_hrefs (calm_env []) = (\<lambda>html. Inr [])"
  by (simp_all add: calm_env_sel)


lemma toot_rejected_link_sel:
  "page toot_rejected_link = Inr ''<hr>Verkauf<hr>''"
  "lemmy_post toot_rejected_link = None"
  "mastodon_post toot_rejected_link = Some (IOError ''HTTP 422'')"
  by (simp_all add: toot_rejected_link_def calm_link_sel)

lemma toot_rejected_excerpt: "has_excerpt (calm_env hrefs) toot_rejected_link"
  by (simp add: has_excerpt_def calm_env_sel toot_rejected_link_sel)

text \<open>The cycle in which every Mastodon login is refused.\<close>

lemma wanted_c: "link_wanted (\<lambda>a b. a = b) [''guetersloh''] ''c/index.htm''"
  by (simp add: link_wanted_def HasPrefix_def HasSuffix_def)

lemma expired_config_sel:
  "IgnoreDirs expired_config = [''guetersloh'']"
  "LemmyToken expired_config = []"
  "MastodonAccessToken expired_config = ''secret''"
  "MastodonToken expired_config = ''old''"
  "MastodonTokenExp expired_config = 50"
  "MastodonUsername expired_config = ''gvgbot''"
  "MastodonPassword expired_config = ''CHANGEME''"
  "MastodonClientID expired_config = ''id''"
  "MastodonClientSecret expired_config = ''key''"
  "lemmyConfigured expired_config"
  "mastodonConfigured expired_config"
  by (simp_all add: expired_config_def both_config_def DefaultConfig_def lemmyConfigured_def
       mastodonConfigured_def)

lemma refused_link_sel:
  "page refused_link = Inr ''<hr>Verkauf<hr>''"
  "mastodon_now refused_link = 100"
  "mastodon_login refused_link = Inl (IOError ''HTTP 401'')"
  by (simp_all add: refused_link_def calm_link_sel)

lemma refused_env_sel:
  "main_page refused_env = Inr ''<html>''"
  "query_hrefs refused_env = (\<lambda>html. Inr [''a/index.htm'', ''b/index.htm'', ''c/index.htm''])"
  "equalFold refused_env = (\<lambda>a b. a = b)"
  "lemmy_now refused_env = 100"
  "lemmy_login refused_env = Inr ''jwt''"
  "lemmy_login_now refused_env = 100"
  "community_id refused_env = Inr 7"
  "extractTextBetweenHR refused_env = (\<lambda>content. Inr (''Titel'', ''Verkauf''))"
  "per_link refused_env = (\<lambda>i. refused_link)"
  "save_links refused_env = None"
  by (simp_all add: refused_env_def calm_env_sel)

lemma refused_observed:
  "extractLinks (query_hrefs refused_env) (equalFold refused_env) ''<html>''
     (IgnoreDirs expired_config) = Inr [''a/index.htm'', ''b/index.htm'', ''c/index.htm'']"
  by (simp add: extractLinks_def extractLinks_loop_eq refused_env_sel expired_config_sel
       wanted_a wanted_b wanted_c)

lemma refused_phases:
  "lemmy_token_phase refused_env expired_config
     = (''jwt'', expired_config\<lparr>LemmyToken := ''jwt'', LemmyTokenExp := 100 + Hour\<rparr>, [LemmyLogin])"
  "community_phase refused_env ''jwt'' = (7, [LemmyGetCommunityID])"
  by (simp_all add: lemmy_token_phase_def community_phase_def refused_env_sel expired_config_sel)

lemma refused_new:
  "findNewLinks [''a/index.htm'', ''b/index.htm'', ''c/index.htm''] [] []
     = [''a/index.htm'', ''b/index.htm'', ''c/index.htm'']"
  by (simp add: findNewLinks_eq)

lemma refused_mastodon_logins:
  "count_list (trace (checkWebsite expired_config False refused_env FileMissing)) MastodonLogin = 3"
proof -
  let ?cfg = "expired_config\<lparr>LemmyToken := ''jwt'', LemmyTokenExp := 100 + Hour\<rparr>"
  let ?st = "\<lparr>st_data = \<lparr>Links = [], FailedLinks = [], LastSeen = load_now refused_env\<rparr>
                 \<lparr>FailedLinks := []\<rparr>,
               st_config = ?cfg, st_trace = [LemmyLogin] @ [LemmyGetCommunityID]\<rparr>"
  have 1: "mastodonConfigured (st_config ?st)"
    by (simp add: configured_token_update expired_config_sel)
  have 2: "\<And>k. has_excerpt refused_env (per_link refused_env k)"
    by (simp add: has_excerpt_def refused_env_sel refused_link_sel)
  have 3: "\<And>k. mastodon_refresh_due (per_link refused_env k) (st_config ?st)"
    by (simp add: mastodon_refresh_due_def refused_env_sel refused_link_sel expired_config_sel)
  have 4: "\<And>k. \<exists>e. mastodon_login (per_link refused_env k) = Inl e"
    by (simp add: refused_env_sel refused_link_sel)
  from process_links_refused [OF 1 2 3 4, of False "''jwt''" 7 0
      "[''a/index.htm'', ''b/index.htm'', ''c/index.htm'']"]
  have "count_list (st_trace (process_links False ''jwt'' 7 refused_env 0
          [''a/index.htm'', ''b/index.htm'', ''c/index.htm''] ?st)) MastodonLogin = 3"
    by simp
  then show ?thesis
    by (simp add: checkWebsite_ran(2) [OF refused_env_sel(1) refused_observed load_missing]
         reconcile_trace refused_new publish_phase_eq [OF refused_phases] refused_env_sel
         split: option.split)
qed

lemma refused_lemmy_logins:
  "count_list (trace (checkWebsite expired_config False refused_env FileMissing)) LemmyLogin = 1"
  by (simp add: checkWebsite_lemmy_logins refused_env_sel(1) refused_observed load_missing
       refused_new expired_config_sel(2))

lemma refused_attempted:
  "attempted (trace (checkWebsite expired_config False refused_env FileMissing))
     = [''a/index.htm'', ''b/index.htm'', ''c/index.htm'']"
  using checkWebsite_attempted [OF refused_env_sel(1) refused_observed load_missing, where tm = False]
  by (simp add: refused_new)

section \<open>The claims\<close>

text \<open>
  Claim C1 says that a dry run never marks a link published.  The code does mark it: in
  test mode \<open>lemmySuccess\<close> and \<open>mastodonSuccess\<close> keep their initial value
  \<open>true\<close>, so the link is appended to \<open>Links\<close>.  The cycle below is a dry run of
  the default configuration over an empty store with one new link on the page: no
  publish call is made, and the link is written as published.
\<close>

theorem dry_run_marks_published:
  "written (checkWebsite DefaultConfig True (calm_env [''a/index.htm'']) FileMissing)
     = Some \<lparr>Links = [''a/index.htm''], FailedLinks = [], LastSeen = 100\<rparr>
   \<and> filter is_publish_call
         (trace (checkWebsite DefaultConfig True (calm_env [''a/index.htm'']) FileMissing)) = []"
  by (simp add: dry_written checkWebsite_dry)

text \<open>
  Claim C2, as amended.  If published and pending are disjoint in the stored state and
  no link occurs twice among the links to publish, then published and pending are
  disjoint in the state that the cycle writes.
\<close>

theorem cycle_keeps_disjoint:
  assumes "written (checkWebsite cfg testMode env store) = Some state'"
    and "main_page env = Inr html"
    and "extractLinks (query_hrefs env) (equalFold env) html (IgnoreDirs cfg) = Inr observed"
    and "loadLinkData (load_now env) store = Inr state"
    and "set (Links state) \<inter> set (FailedLinks state) = {}"
    and "distinct (findNewLinks observed (Links state) (FailedLinks state))"
  shows "set (Links state') \<inter> set (FailedLinks state') = {}"
proof -
  from checkWebsite_ran(1) [OF assms(2,3,4), of testMode] assms(1)
  have "state' = st_data (reconcile cfg testMode env observed state)"
    by (simp split: option.splits)
  with reconcile_disjoint [OF assms(5,6)] show ?thesis by simp
qed

theorem cycle_keeps_disjoint_witness:
  "written (checkWebsite DefaultConfig False (calm_env [''b/index.htm'', ''a/index.htm''])
      (FileData two_state))
     = Some \<lparr>Links = [''a/index.htm'', ''b/index.htm'', ''z/index.htm''], FailedLinks = [],
         LastSeen = 100\<rparr>
   \<and> set (Links \<lparr>Links = [''a/index.htm'', ''b/index.htm'', ''z/index.htm''], FailedLinks = [],
         LastSeen = 100\<rparr>)
       \<inter> set (FailedLinks \<lparr>Links = [''a/index.htm'', ''b/index.htm'', ''z/index.htm''],
         FailedLinks = [], LastSeen = 100\<rparr>) = {}"
proof -
  have h5: "set (Links two_state) \<inter> set (FailedLinks two_state) = {}"
    by (simp add: two_state_def)
  have h6: "distinct (findNewLinks [''b/index.htm'', ''a/index.htm''] (Links two_state)
              (FailedLinks two_state))"
    by (simp add: calm_new)
  from cycle_keeps_disjoint [OF calm_written calm_env_ran(1) calm_env_observed load_data h5 h6]
  show ?thesis by (simp add: calm_written)
qed

text \<open>
  Claim C2 as stated fails: a pending link that is still on the page is taken up twice
  in one cycle.  When its first post is rejected and its second is accepted, the link
  is written both as pending and as published.
\<close>

theorem retry_breaks_disjointness:
  "set (Links pending_state) \<inter> set (FailedLinks pending_state) = {}
   \<and> written (checkWebsite DefaultConfig False flaky_env (FileData pending_state))
       = Some \<lparr>Links = [''a/index.htm''], FailedLinks = [''a/index.htm''], LastSeen = 100\<rparr>
   \<and> set (Links \<lparr>Links = [''a/index.htm''], FailedLinks = [''a/index.htm''], LastSeen = 100\<rparr>)
       \<inter> set (FailedLinks \<lparr>Links = [''a/index.htm''], FailedLinks = [''a/index.htm''],
             LastSeen = 100\<rparr>) \<noteq> {}"
proof -
  have "set (Links pending_state) \<inter> set (FailedLinks pending_state) = {}"
    by (simp add: pending_state_def)
  then show ?thesis by (simp add: flaky_written)
qed

text \<open>
  Claim C3.  Whenever a cycle gets as far as comparing the link lists, the links it
  takes up are, in this order, the observed links that are not published (in page
  order) followed by the pending links; as a set, they are
  \<open>(observed - published) \<union> pending\<close>.
\<close>

theorem cycle_attempts_new_then_pending:
  assumes "main_page env = Inr html"
    and "extractLinks (query_hrefs env) (equalFold env) html (IgnoreDirs cfg) = Inr observed"
    and "loadLinkData (load_now env) store = Inr state"
  shows "attempted (trace (checkWebsite cfg testMode env store))
           = filter (\<lambda>link. link \<notin> set (Links state)) observed @ FailedLinks state
         \<and> set (attempted (trace (checkWebsite cfg testMode env store)))
           = (set observed - set (Links state)) \<union> set (FailedLinks state)"
  using checkWebsite_attempted [OF assms] by (auto simp: findNewLinks_eq)

theorem cycle_attempts_new_then_pending_witness:
  "attempted (trace (checkWebsite DefaultConfig False (calm_env [''b/index.htm'', ''a/index.htm''])
      (FileData two_state))) = [''b/index.htm'', ''z/index.htm'']"
proof -
  have h1: "main_page (calm_env [''b/index.htm'', ''a/index.htm'']) = Inr ''<html>''"
    by (simp add: calm_env_sel)
  have h3: "loadLinkData (load_now (calm_env [''b/index.htm'', ''a/index.htm''])) (FileData two_state) = Inr two_state"
    by (simp add: loadLinkData_def)
  show ?thesis
    using cycle_attempts_new_then_pending [OF h1 calm_env_observed h3, of False]
    by (simp add: two_state_def)
qed

text \<open>
  Claim C4, as amended.  In a cycle that is not a dry run and has at least one
  configured platform, a link with a non-empty excerpt is appended to the published
  links if the publish succeeds on every configured platform, and to the pending links
  (and not to the published ones) otherwise, also when another platform has accepted the
  post.
\<close>

theorem link_published_iff_all_platforms_succeed:
  assumes "\<not> testMode"
    and "lemmyConfigured (st_config st) \<or> mastodonConfigured (st_config st)"
    and "has_excerpt env le"
  shows "st_data (process_link testMode jwt communityID env le link st) =
     (if (lemmyConfigured (st_config st) \<longrightarrow> lemmy_publish_ok jwt le)
         \<and> (mastodonConfigured (st_config st) \<longrightarrow> mastodon_publish_ok le (st_config st))
      then (st_data st)\<lparr>Links := Links (st_data st) @ [link]\<rparr>
      else (st_data st)\<lparr>FailedLinks := FailedLinks (st_data st) @ [link]\<rparr>)"
  using assms by (rule process_link_outcome)

theorem link_published_iff_all_platforms_succeed_witness:
  "lemmy_publish_ok ''jwt'' toot_rejected_link
   \<and> \<not> mastodon_publish_ok toot_rejected_link both_config
   \<and> st_data (process_link False ''jwt'' 7 (calm_env []) toot_rejected_link ''b/index.htm''
        \<lparr>st_data = settled_state, st_config = both_config, st_trace = []\<rparr>)
       = settled_state\<lparr>FailedLinks := FailedLinks settled_state @ [''b/index.htm'']\<rparr>"
proof -
  have h1: "\<not> False" by simp
  have h2: "lemmyConfigured (st_config \<lparr>st_data = settled_state, st_config = both_config, st_trace = []\<rparr>)
            \<or> mastodonConfigured (st_config \<lparr>st_data = settled_state, st_config = both_config, st_trace = []\<rparr>)"
    by (simp add: sample_configured)
  have L: "lemmy_publish_ok ''jwt'' toot_rejected_link"
    by (simp add: lemmy_publish_ok_def toot_rejected_link_sel)
  have M: "\<not> mastodon_publish_ok toot_rejected_link both_config"
    by (simp add: mastodon_publish_ok_def toot_rejected_link_sel)
  from link_published_iff_all_platforms_succeed [OF h1 h2 toot_rejected_excerpt,
      where jwt = "''jwt''" and communityID = 7 and link = "''b/index.htm''"] L M
  show ?thesis by (simp add: sample_configured)
qed

text \<open>
  Claim C4 as stated fails when no platform is configured: no configured platform fails
  for the link (there is none), so the publish succeeded on every configured platform,
  yet the guard for this case writes the link as pending and not as published.
\<close>

theorem no_platform_link_goes_pending:
  "\<not> lemmyConfigured bare_config \<and> \<not> mastodonConfigured bare_config
   \<and> has_excerpt (calm_env [''a/index.htm'']) (per_link (calm_env [''a/index.htm'']) 0)
   \<and> filter is_publish_call
        (trace (checkWebsite bare_config False (calm_env [''a/index.htm'']) FileMissing)) = []
   \<and> written (checkWebsite bare_config False (calm_env [''a/index.htm'']) FileMissing)
       = Some \<lparr>Links = [], FailedLinks = [''a/index.htm''], LastSeen = 100\<rparr>"
  by (simp add: sample_configured bare_written checkWebsite_bare_quiet calm_env_sel
       calm_has_excerpt)

text \<open>
  Claim C5, as amended.  If no platform is configured, a cycle makes no publish call;
  it writes as pending exactly the links to publish whose detail page yields a non-empty
  excerpt, and as published the links that were published before and are still on the
  page.  Over any number of cycles of \<open>runMonitoring\<close> no publish call is made and
  no link is added to the published ones.
\<close>

theorem no_platform_cycles:
  assumes "\<not> lemmyConfigured cfg" and "\<not> mastodonConfigured cfg"
  shows "(main_page env = Inr html
           \<and> extractLinks (query_hrefs env) (equalFold env) html (IgnoreDirs cfg) = Inr observed
           \<and> loadLinkData (load_now env) store = Inr state
           \<and> written (checkWebsite cfg testMode env store) = Some state'
          \<longrightarrow> FailedLinks state'
                = map snd (filter (\<lambda>(k, link). has_excerpt env (per_link env k))
                    (enumerate 0 (findNewLinks observed (Links state) (FailedLinks state))))
              \<and> Links state' = filter (\<lambda>link. link \<in> set observed) (Links state))
       \<and> filter is_publish_call (trace (checkWebsite cfg testMode env store)) = []
       \<and> set (published_of (fst (runMonitoring cfg testMode first ticks store)))
            \<subseteq> set (published_of store)
       \<and> filter is_publish_call (snd (runMonitoring cfg testMode first ticks store)) = []"
proof -
  have "FailedLinks state'
          = map snd (filter (\<lambda>(k, link). has_excerpt env (per_link env k))
              (enumerate 0 (findNewLinks observed (Links state) (FailedLinks state))))
        \<and> Links state' = filter (\<lambda>link. link \<in> set observed) (Links state)"
    if R: "main_page env = Inr html"
      "extractLinks (query_hrefs env) (equalFold env) html (IgnoreDirs cfg) = Inr observed"
      "loadLinkData (load_now env) store = Inr state"
      and W: "written (checkWebsite cfg testMode env store) = Some state'"
  proof -
    from checkWebsite_ran(1) [OF R, of testMode] W
    have "state' = st_data (reconcile cfg testMode env observed state)"
      by (simp split: option.splits)
    then show ?thesis
      by (simp add: reconcile_bare [OF assms])
  qed
  moreover note checkWebsite_bare_quiet [OF assms, of testMode env store]
  moreover note run_ticks_bare [OF assms, of testMode "first # ticks" store]
  ultimately show ?thesis
    unfolding runMonitoring_def by blast
qed

theorem no_platform_cycles_witness:
  "written (checkWebsite bare_config False (calm_env [''a/index.htm'']) FileMissing)
     = Some \<lparr>Links = [], FailedLinks = [''a/index.htm''], LastSeen = 100\<rparr>
   \<and> filter is_publish_call
        (trace (checkWebsite bare_config False (calm_env [''a/index.htm'']) FileMissing)) = []
   \<and> published_of (fst (runMonitoring bare_config False (calm_env [''a/index.htm''])
        [calm_env [''a/index.htm'']] FileMissing)) = []
   \<and> filter is_publish_call (snd (runMonitoring bare_config False (calm_env [''a/index.htm''])
        [calm_env [''a/index.htm'']] FileMissing)) = []"
proof -
  note T = no_platform_cycles [OF sample_configured(1,2),
      where env = "calm_env [''a/index.htm'']" and testMode = False and store = FileMissing
        and first = "calm_env [''a/index.htm'']" and ticks = "[calm_env [''a/index.htm'']]"
        and html = "''<html>''" and observed = "[''a/index.htm'']"
        and state = "\<lparr>Links = [], FailedLinks = [], LastSeen = 100\<rparr>"
        and state' = "\<lparr>Links = [], FailedLinks = [''a/index.htm''], LastSeen = 100\<rparr>"]
  from T have Q: "filter is_publish_call
        (trace (checkWebsite bare_config False (calm_env [''a/index.htm'']) FileMissing)) = []"
    by blast
  from T have R: "set (published_of (fst (runMonitoring bare_config False
        (calm_env [''a/index.htm'']) [calm_env [''a/index.htm'']] FileMissing)))
        \<subseteq> set (published_of FileMissing)"
    by blast
  from T have S: "filter is_publish_call (snd (runMonitoring bare_config False
        (calm_env [''a/index.htm'']) [calm_env [''a/index.htm'']] FileMissing)) = []"
    by blast
  have "published_of FileMissing = []"
    by (simp add: published_of_def)
  with R have "published_of (fst (runMonitoring bare_config False (calm_env [''a/index.htm''])
        [calm_env [''a/index.htm'']] FileMissing)) = []"
    by simp
  with Q S bare_written show ?thesis by simp
qed

text \<open>
  Claim C5 as stated fails: without a configured platform, a link whose detail page has
  no excerpt is taken up by the cycle but written neither as pending nor as published.
\<close>

theorem no_platform_skips_blank_link:
  "\<not> lemmyConfigured bare_config \<and> \<not> mastodonConfigured bare_config
   \<and> attempted (trace (checkWebsite bare_config False blank_env FileMissing)) = [''a/index.htm'']
   \<and> written (checkWebsite bare_config False blank_env FileMissing)
       = Some \<lparr>Links = [], FailedLinks = [], LastSeen = 100\<rparr>"
proof -
  have obs: "extractLinks (query_hrefs blank_env) (equalFold blank_env) ''<html>''
               (IgnoreDirs bare_config) = Inr [''a/index.htm'']"
    by (rule observed_a) (simp_all add: sample_ignore blank_env_sel)
  have "attempted (trace (checkWebsite bare_config False blank_env FileMissing))
          = findNewLinks [''a/index.htm''] [] []"
    using checkWebsite_attempted [OF blank_env_sel(1) obs load_missing, where tm = False]
    by simp
  then show ?thesis
    by (simp add: fresh_new blank_written sample_configured)
qed

text \<open>
  Claim C6 says that a cached token whose expiry lies in the past triggers exactly one
  refresh attempt per cycle, however many links are processed.  The Lemmy login does
  that; the Mastodon refresh sits inside the loop over the links and is repeated for
  every link as long as the login is refused.  In the cycle below the cached Mastodon
  token has expired, three links are taken up, and the cycle makes one Lemmy login call
  and three Mastodon login calls.
\<close>

theorem expired_mastodon_token_refreshed_per_link:
  "MastodonToken expired_config \<noteq> []
   \<and> MastodonTokenExp expired_config < mastodon_now (per_link refused_env 0)
   \<and> attempted (trace (checkWebsite expired_config False refused_env FileMissing))
       = [''a/index.htm'', ''b/index.htm'', ''c/index.htm'']
   \<and> count_list (trace (checkWebsite expired_config False refused_env FileMissing)) LemmyLogin = 1
   \<and> count_list (trace (checkWebsite expired_config False refused_env FileMissing)) MastodonLogin = 3"
  by (simp add: refused_mastodon_logins refused_lemmy_logins refused_attempted expired_config_sel
       refused_env_sel refused_link_sel)




text \<open>
  Claim C8.  A link that a cycle has written as pending is taken up by the next cycle
  that gets to compare the link lists, whatever the page shows then.
\<close>

theorem pending_retried_next_cycle:
  assumes "written (checkWebsite cfg testMode env store) = Some state"
    and "link \<in> set (FailedLinks state)"
    and "main_page env' = Inr html"
    and "extractLinks (query_hrefs env') (equalFold env') html (IgnoreDirs cfg') = Inr observed"
  shows "link \<in> set (attempted (trace (checkWebsite cfg' testMode' env' (FileData state))))"
proof -
  have "loadLinkData (load_now env') (FileData state) = Inr state"
    by (simp add: loadLinkData_def)
  from checkWebsite_attempted [OF assms(3) assms(4) this] assms(2)
  show ?thesis by (simp add: findNewLinks_eq)
qed

theorem pending_retried_next_cycle_witness:
  "written (checkWebsite DefaultConfig False flaky_env (FileData pending_state))
     = Some \<lparr>Links = [''a/index.htm''], FailedLinks = [''a/index.htm''], LastSeen = 100\<rparr>
   \<and> ''a/index.htm'' \<in> set (attempted (trace (checkWebsite DefaultConfig False (calm_env [])
        (FileData \<lparr>Links = [''a/index.htm''], FailedLinks = [''a/index.htm''], LastSeen = 100\<rparr>))))"
proof -
  have h2: "''a/index.htm'' \<in> set (FailedLinks \<lparr>Links = [''a/index.htm''],
              FailedLinks = [''a/index.htm''], LastSeen = 100\<rparr>)"
    by simp
  have h4: "extractLinks (query_hrefs (calm_env [])) (equalFold (calm_env [])) ''<html>''
              (IgnoreDirs DefaultConfig) = Inr []"
    by (rule observed_none) (simp add: calm_env_sel)
  from pending_retried_next_cycle [OF flaky_written h2 calm_env_ran(1) h4,
      where testMode' = False]
  show ?thesis by (simp add: flaky_written)
qed

text \<open>
  Claim C9, as amended.  If the stored published and pending links are each free of
  duplicates and disjoint from each other, and no link occurs twice among the links to
  publish, then the published and the pending links that the cycle writes are each free
  of duplicates.
\<close>

theorem cycle_keeps_deduplicated:
  assumes "written (checkWebsite cfg testMode env store) = Some state'"
    and "main_page env = Inr html"
    and "extractLinks (query_hrefs env) (equalFold env) html (IgnoreDirs cfg) = Inr observed"
    and "loadLinkData (load_now env) store = Inr state"
    and "distinct (Links state)" and "distinct (FailedLinks state)"
    and "set (Links state) \<inter> set (FailedLinks state) = {}"
    and "distinct (findNewLinks observed (Links state) (FailedLinks state))"
  shows "distinct (Links state') \<and> distinct (FailedLinks state')"
proof -
  from checkWebsite_ran(1) [OF assms(2,3,4), of testMode] assms(1)
  have "state' = st_data (reconcile cfg testMode env observed state)"
    by (simp split: option.splits)
  with reconcile_distinct [OF assms(5,6,7,8)] show ?thesis by simp
qed

theorem cycle_keeps_deduplicated_witness:
  "written (checkWebsite DefaultConfig False (calm_env [''b/index.htm'', ''a/index.htm''])
      (FileData two_state))
     = Some \<lparr>Links = [''a/index.htm'', ''b/index.htm'', ''z/index.htm''], FailedLinks = [],
         LastSeen = 100\<rparr>
   \<and> distinct (Links \<lparr>Links = [''a/index.htm'', ''b/index.htm'', ''z/index.htm''],
         FailedLinks = [], LastSeen = 100\<rparr>)
   \<and> distinct (FailedLinks \<lparr>Links = [''a/index.htm'', ''b/index.htm'', ''z/index.htm''],
         FailedLinks = [], LastSeen = 100\<rparr>)"
proof -
  have h5: "distinct (Links two_state)" "distinct (FailedLinks two_state)"
    "set (Links two_state) \<inter> set (FailedLinks two_state) = {}"
    by (simp_all add: two_state_def)
  have h6: "distinct (findNewLinks [''b/index.htm'', ''a/index.htm''] (Links two_state)
              (FailedLinks two_state))"
    by (simp add: calm_new)
  from cycle_keeps_deduplicated [OF calm_written calm_env_ran(1) calm_env_observed load_data h5 h6]
  show ?thesis by (simp add: calm_written)
qed

text \<open>
  Claim C9 as stated fails: a pending link that is still on the page is taken up twice
  in one cycle; when both posts are accepted it is written twice as published.
\<close>

theorem retry_duplicates_published:
  "distinct (Links pending_state) \<and> distinct (FailedLinks pending_state)
   \<and> written (checkWebsite DefaultConfig False (calm_env [''a/index.htm'']) (FileData pending_state))
       = Some \<lparr>Links = [''a/index.htm'', ''a/index.htm''], FailedLinks = [], LastSeen = 100\<rparr>
   \<and> \<not> distinct (Links \<lparr>Links = [''a/index.htm'', ''a/index.htm''], FailedLinks = [],
           LastSeen = 100\<rparr>)"
proof -
  have "distinct (Links pending_state) \<and> distinct (FailedLinks pending_state)"
    by (simp add: pending_state_def)
  then show ?thesis by (simp add: twice_written)
qed

text \<open>
  Claim C10.  \<open>extractLinks\<close> returns the \<open>href\<close> values, in document order, that
  are not empty, do not start with \<open>#\<close> or \<open>javascript:\<close>, contain a \<open>/\<close>, end
  with \<open>/index.htm\<close> and whose first segment is not, up to case, an entry of the
  ignore list; an error of the HTML query is passed on.
\<close>

theorem extractLinks_filter:
  "extractLinks query ef htmlContent ignoreDirs =
     (case query htmlContent of
        Inl e \<Rightarrow> Inl e
      | Inr hrefs \<Rightarrow> Inr (filter (link_wanted ef ignoreDirs) hrefs))"
  by (simp add: extractLinks_def extractLinks_loop_eq split: sum.splits)

theorem extractLinks_filter_witness:
  "extractLinks (\<lambda>html. Inr [''b/index.htm'', ''#top'', ''guetersloh/index.htm'', ''a/index.htm''])
     (\<lambda>a b. a = b) ''<html>'' [''guetersloh'']
   = Inr [''b/index.htm'', ''a/index.htm'']"
  using extractLinks_filter [of "\<lambda>html. Inr [''b/index.htm'', ''#top'', ''guetersloh/index.htm'', ''a/index.htm'']"
      "\<lambda>a b. a = b" "''<html>''" "[''guetersloh'']"]
  by (simp add: wanted_a wanted_b unwanted_g unwanted_top)

end
